theory Spec2Isabelle
  imports Complex_Main "HOL-Library.Sublist" "HOL-Library.AList" "HOL-Library.Multiset"
begin

section \<open>Knowledge-base retriever: strings and JavaScript built-ins\<close>

text \<open>
  The retriever is the route handler of the knowledge API (\<open>POST\<close>,
  \<open>loadKnowledgeBaseDocuments\<close>, \<open>buildKnowledgeBaseIndex\<close>, \<open>tokenizeAndNormalize\<close>,
  \<open>searchDocuments\<close> and their helpers). Modelling conventions:
  \<^item> a JavaScript string is a \<open>string\<close> whose characters are the code units below 256
    (ASCII and Latin-1); \<open>isSpace\<close> is the class \<open>\s\<close> there, \<open>isWordChar\<close> is \<open>\w\<close>;
  \<^item> a JavaScript number that is a count is a \<open>nat\<close> or an \<open>int\<close>; any other number
    is the \<open>real\<close> that the IEEE double denotes, and every operation that can be
    inexact rounds its result to the nearest double (section \<open>JavaScript numbers\<close>);
  \<^item> a \<open>Set\<close> is a list without repetitions in insertion order, a \<open>Map\<close> and an
    object used as a dictionary are association lists in insertion order;
  \<^item> reading a property of an object literal also finds the names inherited from
    \<open>Object.prototype\<close> (\<open>getProperty\<close>), and assigning to the name \<open>__proto__\<close> sets
    the prototype of the object (\<open>setDocumentEntry\<close>); a \<open>TypeError\<close> raised on an
    inherited value is the \<open>Inl\<close> branch of a sum.
\<close>

datatype error = TypeError

definition isSpace :: "char \<Rightarrow> bool" where
  "isSpace c = (let n = (of_char c :: nat) in (9 \<le> n \<and> n \<le> 13) \<or> n = 32 \<or> n = 160)"

definition isWordChar :: "char \<Rightarrow> bool" where
  "isWordChar c = (let n = (of_char c :: nat) in
     (48 \<le> n \<and> n \<le> 57) \<or> (65 \<le> n \<and> n \<le> 90) \<or> n = 95 \<or> (97 \<le> n \<and> n \<le> 122))"

definition isLineTerminator :: "char \<Rightarrow> bool" where
  "isLineTerminator c = (let n = (of_char c :: nat) in n = 10 \<or> n = 13)"

definition toLowerChar :: "char \<Rightarrow> char" where
  "toLowerChar c = (let n = (of_char c :: nat) in
     if (65 \<le> n \<and> n \<le> 90) \<or> (192 \<le> n \<and> n \<le> 222 \<and> n \<noteq> 215)
     then char_of (n + 32) else c)"

definition toLowerCase :: "string \<Rightarrow> string" where
  "toLowerCase s = map toLowerChar s"

definition trim :: "string \<Rightarrow> string" where
  "trim s = rev (dropWhile isSpace (rev (dropWhile isSpace s)))"

text \<open>\<open>s.includes(sub)\<close>: \<open>sub\<close> occurs in \<open>s\<close> as a contiguous substring.\<close>

fun stringIncludes :: "string \<Rightarrow> string \<Rightarrow> bool" where
  "stringIncludes [] sub = (sub = [])"
| "stringIncludes (c # cs) sub = (prefix sub (c # cs) \<or> stringIncludes cs sub)"

text \<open>
  \<open>s.split(/sep+/)\<close>: the pieces between maximal runs of separator characters. A
  leading or trailing run yields an empty first or last piece, and the empty string
  yields one empty piece, as in JavaScript.
\<close>

fun splitAux :: "(char \<Rightarrow> bool) \<Rightarrow> bool \<Rightarrow> string \<Rightarrow> string \<Rightarrow> string list" where
  "splitAux sep inSep cur [] = [rev cur]"
| "splitAux sep inSep cur (c # cs) =
     (if sep c
      then (if inSep then splitAux sep True [] cs else rev cur # splitAux sep True [] cs)
      else splitAux sep False (c # cur) cs)"

definition splitOn :: "(char \<Rightarrow> bool) \<Rightarrow> string \<Rightarrow> string list" where
  "splitOn sep s = splitAux sep False [] s"

text \<open>\<open>s.replace('.md', '')\<close> with a string pattern removes the first occurrence only.\<close>

fun removeFirst :: "string \<Rightarrow> string \<Rightarrow> string" where
  "removeFirst pat [] = []"
| "removeFirst pat (c # cs) =
     (if prefix pat (c # cs) then drop (length pat) (c # cs) else c # removeFirst pat cs)"

text \<open>\<open>new Set(xs)\<close> and \<open>set.add(x)\<close>, keeping insertion order.\<close>

definition setAdd :: "'a list \<Rightarrow> 'a \<Rightarrow> 'a list" where
  "setAdd xs x = (if x \<in> set xs then xs else xs @ [x])"

definition newSet :: "'a list \<Rightarrow> 'a list" where
  "newSet xs = fold (\<lambda>x acc. setAdd acc x) xs []"

text \<open>\<open>Math.round\<close> rounds half up.\<close>

definition mathRound :: "real \<Rightarrow> int" where
  "mathRound x = \<lfloor>x + 1 / 2\<rfloor>"

text \<open>
  \<open>xs.slice(0, m)\<close>: a negative end counts from the end of the array.
\<close>

definition slice0 :: "int \<Rightarrow> 'a list \<Rightarrow> 'a list" where
  "slice0 m xs = (if m < 0 then take (nat (int (length xs) + m)) xs else take (nat m) xs)"

text \<open>
  Property read \<open>obj[k]\<close> on an object created by a literal: an own property, else a
  value inherited from \<open>Object.prototype\<close> (a function or an object, so truthy and
  without the fields the code expects), else \<open>undefined\<close>.
\<close>

datatype 'a property = Own 'a | Inherited | Undefined

definition objectPrototypeNames :: "string list" where
  "objectPrototypeNames =
     [''constructor'', ''__defineGetter__'', ''__defineSetter__'', ''hasOwnProperty'',
      ''__lookupGetter__'', ''__lookupSetter__'', ''isPrototypeOf'', ''propertyIsEnumerable'',
      ''toString'', ''valueOf'', ''__proto__'', ''toLocaleString'']"

definition getProperty :: "(string \<times> 'a) list \<Rightarrow> string \<Rightarrow> 'a property" where
  "getProperty obj k =
     (case map_of obj k of
        Some v \<Rightarrow> Own v
      | None \<Rightarrow> if k \<in> set objectPrototypeNames then Inherited else Undefined)"

text \<open>A loop whose body may raise: the first error ends it.\<close>

fun foldE :: "('a \<Rightarrow> 's \<Rightarrow> error + 's) \<Rightarrow> 'a list \<Rightarrow> 's \<Rightarrow> error + 's" where
  "foldE f [] s = Inr s"
| "foldE f (x # xs) s = (case f x s of Inl e \<Rightarrow> Inl e | Inr s' \<Rightarrow> foldE f xs s')"

section \<open>JavaScript numbers\<close>

text \<open>
  \<open>double x\<close> is the double nearest to the real \<open>x\<close>, ties to the even significand:
  with \<open>2 ^ e \<le> \<bar>x\<bar> < 2 ^ (e + 1)\<close>, the multiple of \<open>2 ^ (e - 52)\<close> nearest to \<open>x\<close>.
  \<open>halvings\<close> and \<open>doublings\<close> find the exponent \<open>e\<close>. The exponent is not bounded:
  overflow to \<open>Infinity\<close> (above \<open>2 ^ 1024\<close>) and gradual underflow (below
  \<open>2 ^ - 1022\<close>) are not modelled.
\<close>

function halvings :: "real \<Rightarrow> nat" where
  "halvings x = (if 2 \<le> x then Suc (halvings (x / 2)) else 0)"
  by pat_completeness auto
termination
  by (relation "measure (\<lambda>x. nat \<lceil>x\<rceil>)") (auto, linarith)

function doublings :: "real \<Rightarrow> nat" where
  "doublings x = (if 0 < x \<and> x < 1 then Suc (doublings (2 * x)) else 0)"
  by pat_completeness auto
termination
proof (relation "measure (\<lambda>x. nat \<lceil>2 / x\<rceil>)")
  show "wf (measure (\<lambda>x. nat \<lceil>2 / x\<rceil>))" by simp
next
  fix x :: real
  assume x: "0 < x \<and> x < 1"
  then have "2 < 2 / x" by (simp add: field_simps)
  moreover have "2 / (2 * x) = (2 / x) / 2" by simp
  ultimately have "2 / (2 * x) \<le> 2 / x - 1" by linarith
  then have "\<lceil>2 / (2 * x)\<rceil> \<le> \<lceil>2 / x - 1\<rceil>" by (rule ceiling_mono)
  also have "\<dots> = \<lceil>2 / x\<rceil> - 1" by simp
  finally have "\<lceil>2 / (2 * x)\<rceil> < \<lceil>2 / x\<rceil>" by simp
  moreover have "0 < \<lceil>2 / x\<rceil>" using \<open>2 < 2 / x\<close> by linarith
  ultimately show "(2 * x, x) \<in> measure (\<lambda>x. nat \<lceil>2 / x\<rceil>)"
    by simp
qed

declare halvings.simps [simp del] doublings.simps [simp del]

definition binaryExponent :: "real \<Rightarrow> int" where
  "binaryExponent x =
     (if 1 \<le> \<bar>x\<bar> then int (halvings \<bar>x\<bar>) else - int (doublings \<bar>x\<bar>))"

definition roundHalfEven :: "real \<Rightarrow> int" where
  "roundHalfEven y =
     (let f = \<lfloor>y\<rfloor>; r = y - of_int f
      in if r < 1 / 2 then f else if 1 / 2 < r then f + 1 else if even f then f else f + 1)"

definition double :: "real \<Rightarrow> real" where
  "double x =
     (if x = 0 then 0
      else let e = binaryExponent x
           in of_int (roundHalfEven (x * 2 powi (52 - e))) * 2 powi (e - 52))"

text \<open>
  The operators \<open>+\<close>, \<open>*\<close> and \<open>/\<close> on doubles, and \<open>Math.sqrt\<close> and \<open>Math.log\<close>.
  IEEE 754 rounds the first four correctly; \<open>Math.log\<close> is taken to do so too.
\<close>

definition numAdd :: "real \<Rightarrow> real \<Rightarrow> real" where
  "numAdd a b = double (a + b)"

definition numMul :: "real \<Rightarrow> real \<Rightarrow> real" where
  "numMul a b = double (a * b)"

definition numDiv :: "real \<Rightarrow> real \<Rightarrow> real" where
  "numDiv a b = double (a / b)"

definition mathSqrt :: "real \<Rightarrow> real" where
  "mathSqrt x = double (sqrt x)"

definition mathLog :: "real \<Rightarrow> real" where
  "mathLog x = double (ln x)"

section \<open>Data model\<close>

record KnowledgeDocument =
  doc_id :: string
  title :: string
  content :: string
  tags :: "string list"
  source :: string
  relevance :: real

text \<open>
  A search result is the document with its \<open>searchScore\<close> (the \<open>matchDetails\<close> strings,
  which only label the signals that fired, are left out).
\<close>

record ScoredDocument =
  scored :: KnowledgeDocument
  searchScore :: int

record InvertedEntry =
  documents :: "string list"
  frequency :: nat
  idf :: real

record DocumentEntry =
  document :: KnowledgeDocument
  termFrequency :: "(string \<times> nat) list"
  tfidfVector :: "(string \<times> real) list"
  doc_length :: nat
  topics :: "string list"
  embeddings :: "nat list"

text \<open>
  The object \<open>documentIndex\<close>: its own properties in insertion order, and the entry
  that an assignment to \<open>documentIndex['__proto__']\<close> has installed as its prototype
  (\<open>None\<close> while the prototype is \<open>Object.prototype\<close>).
\<close>

record DocumentIndex =
  entries :: "(string \<times> DocumentEntry) list"
  prototype :: "DocumentEntry option"

text \<open>
  \<open>averageDocumentLength\<close> is \<open>0 / 0 = NaN\<close> when the index is built from no document:
  \<open>None\<close> stands for \<open>NaN\<close>.
\<close>

record KnowledgeBaseIndex =
  invertedIndex :: "(string \<times> InvertedEntry) list"
  documentIndex :: DocumentIndex
  totalDocuments :: nat
  vocabulary :: "string list"
  averageDocumentLength :: "real option"
  lastIndexed :: int

definition MAX_RESULTS :: int where "MAX_RESULTS = 5"
definition MAX_CONTENT_LENGTH :: nat where "MAX_CONTENT_LENGTH = 4000"
definition CACHE_TTL :: int where "CACHE_TTL = 5 * 60 * 1000"

section \<open>Tokenizer\<close>

definition stopWords :: "string list" where
  "stopWords =
     [''what'', ''is'', ''are'', ''the'', ''how'', ''why'', ''when'', ''where'', ''can'',
      ''could'', ''would'', ''should'', ''do'', ''does'', ''did'', ''a'', ''an'', ''and'',
      ''or'', ''but'', ''in'', ''on'', ''at'', ''to'', ''for'', ''of'', ''with'', ''by'',
      ''from'', ''about'', ''search'', ''find'', ''tell'', ''me'', ''give'', ''show'',
      ''explain'', ''describe'', ''want'', ''know'', ''need'', ''help'', ''this'', ''that'',
      ''these'', ''those'', ''i'', ''you'', ''he'', ''she'', ''it'', ''we'', ''they'']"

definition tokenizeAndNormalize :: "string \<Rightarrow> string list" where
  "tokenizeAndNormalize text =
     take 1000
       (filter (\<lambda>word. length word > 2 \<and> word \<notin> set stopWords)
          (splitOn isSpace
             (map (\<lambda>c. if isWordChar c \<or> isSpace c then c else CHR '' '')
                (toLowerCase text))))"

section \<open>Index builder\<close>

definition createEmptyIndex :: "int \<Rightarrow> KnowledgeBaseIndex" where
  "createEmptyIndex now =
     \<lparr>invertedIndex = [], documentIndex = \<lparr>entries = [], prototype = None\<rparr>,
      totalDocuments = 0, vocabulary = [], averageDocumentLength = Some 0, lastIndexed = now\<rparr>"

definition extractTopicsFromFilename :: "string \<Rightarrow> string list" where
  "extractTopicsFromFilename filename =
     filter (\<lambda>part. length part > 3)
       (splitOn (\<lambda>c. c = CHR ''-'' \<or> c = CHR ''_'' \<or> isSpace c)
          (removeFirst ''.md'' (toLowerCase filename)))"

definition createSimpleEmbeddings :: "string list \<Rightarrow> string list \<Rightarrow> nat list" where
  "createSimpleEmbeddings words vocab =
     map (\<lambda>term. count_list words term) (take (min 50 (length vocab)) vocab)"

text \<open>
  The body of \<open>words.forEach\<close> in \<open>buildKnowledgeBaseIndex\<close>, on the term frequencies
  of the current document, the vocabulary and the inverted index. When \<open>word\<close> is a
  name inherited from \<open>Object.prototype\<close>, \<open>invertedIndex[word]\<close> is truthy, no entry
  is created, and \<open>invertedIndex[word].documents.add\<close> raises.
\<close>

definition indexWord ::
  "string \<Rightarrow> string \<Rightarrow> (string \<times> nat) list \<times> string list \<times> (string \<times> InvertedEntry) list
     \<Rightarrow> error + ((string \<times> nat) list \<times> string list \<times> (string \<times> InvertedEntry) list)" where
  "indexWord docId word st =
     (case st of (tf, vocab, inverted) \<Rightarrow>
        let tf' = AList.update word (case map_of tf word of Some n \<Rightarrow> n + 1 | None \<Rightarrow> 1) tf;
            vocab' = setAdd vocab word
        in (case getProperty inverted word of
              Inherited \<Rightarrow> Inl TypeError
            | Undefined \<Rightarrow>
                Inr (tf', vocab',
                     inverted @ [(word, \<lparr>documents = [docId], frequency = 1, idf = 0\<rparr>)])
            | Own e \<Rightarrow>
                Inr (tf', vocab',
                     AList.update word
                       (e\<lparr>documents := setAdd (documents e) docId,
                          frequency := frequency e + 1\<rparr>)
                       inverted)))"

text \<open>
  The state of the first pass: inverted index, document index, vocabulary and
  \<open>totalDocumentLength\<close>.
\<close>

record BuildState =
  bs_inverted :: "(string \<times> InvertedEntry) list"
  bs_documents :: DocumentIndex
  bs_vocabulary :: "string list"
  bs_totalLength :: nat

text \<open>The \<open>words\<close> of a document: the tokens of its title and content.\<close>

definition documentTokens :: "KnowledgeDocument \<Rightarrow> string list" where
  "documentTokens doc = tokenizeAndNormalize (toLowerCase (title doc @ '' '' @ content doc))"

text \<open>
  The assignment \<open>documentIndex[docId] = entry\<close>. An object literal inherits the
  accessor \<open>__proto__\<close> from \<open>Object.prototype\<close>: assigning an object to that name
  calls the setter, which makes the object the prototype and creates no own property.
  Any other name becomes, or stays, an own property.
\<close>

definition setDocumentEntry :: "string \<Rightarrow> DocumentEntry \<Rightarrow> DocumentIndex \<Rightarrow> DocumentIndex" where
  "setDocumentEntry docId entry index =
     (if docId = ''__proto__'' then index\<lparr>prototype := Some entry\<rparr>
      else index\<lparr>entries := AList.update docId entry (entries index)\<rparr>)"

definition indexDocument :: "KnowledgeDocument \<Rightarrow> BuildState \<Rightarrow> error + BuildState" where
  "indexDocument doc st =
     (let docId = doc_id doc;
          words = documentTokens doc
      in case foldE (indexWord docId) words ([], bs_vocabulary st, bs_inverted st) of
           Inl e \<Rightarrow> Inl e
         | Inr (tf, vocab, inverted) \<Rightarrow>
             Inr \<lparr>bs_inverted = inverted,
                  bs_documents =
                    setDocumentEntry docId
                      \<lparr>document = doc, termFrequency = tf, tfidfVector = [],
                       doc_length = length words,
                       topics = extractTopicsFromFilename (source doc),
                       embeddings = createSimpleEmbeddings words vocab\<rparr>
                      (bs_documents st),
                  bs_vocabulary = vocab,
                  bs_totalLength = bs_totalLength st + length words\<rparr>)"

text \<open>Second pass, over the vocabulary: \<open>idf = Math.log(N / (1 + df))\<close>.\<close>

definition setIdf ::
  "nat \<Rightarrow> string \<Rightarrow> (string \<times> InvertedEntry) list \<Rightarrow> error + (string \<times> InvertedEntry) list" where
  "setIdf n term inverted =
     (case getProperty inverted term of
        Own e \<Rightarrow>
          Inr (AList.update term
                 (e\<lparr>idf := mathLog (numDiv (real n) (real (1 + length (documents e))))\<rparr>)
                 inverted)
      | Inherited \<Rightarrow> Inl TypeError
      | Undefined \<Rightarrow> Inl TypeError)"

text \<open>
  Third pass, over \<open>Object.values(documentIndex)\<close>, the own properties, and the terms
  of each entry: \<open>tfidf = (tf / docEntry.length) * idf\<close>. An entry that is the prototype
  is not visited and keeps its empty \<open>tfidfVector\<close>. The \<open>idf\<close> of an inherited
  value is \<open>undefined\<close> and the product \<open>NaN\<close>, stored here as 0: the one reader of
  the vector, \<open>tfidfVector.get(term) || 0\<close>, takes both for 0.
\<close>

fun tfidfTerms ::
  "(string \<times> InvertedEntry) list \<Rightarrow> nat \<Rightarrow> (string \<times> nat) list \<Rightarrow> error + (string \<times> real) list" where
  "tfidfTerms inverted len [] = Inr []"
| "tfidfTerms inverted len ((term, tf) # rest) =
     (case getProperty inverted term of
        Own e \<Rightarrow>
          (case tfidfTerms inverted len rest of
             Inl err \<Rightarrow> Inl err
           | Inr vs \<Rightarrow> Inr ((term, numMul (numDiv (real tf) (real len)) (idf e)) # vs))
      | Inherited \<Rightarrow>
          (case tfidfTerms inverted len rest of
             Inl err \<Rightarrow> Inl err
           | Inr vs \<Rightarrow> Inr ((term, 0) # vs))
      | Undefined \<Rightarrow> Inl TypeError)"

fun tfidfEntries ::
  "(string \<times> InvertedEntry) list \<Rightarrow> (string \<times> DocumentEntry) list
     \<Rightarrow> error + (string \<times> DocumentEntry) list" where
  "tfidfEntries inverted [] = Inr []"
| "tfidfEntries inverted ((docId, entry) # rest) =
     (case tfidfTerms inverted (doc_length entry) (termFrequency entry) of
        Inl err \<Rightarrow> Inl err
      | Inr vs \<Rightarrow>
          (case tfidfEntries inverted rest of
             Inl err \<Rightarrow> Inl err
           | Inr es \<Rightarrow> Inr ((docId, entry\<lparr>tfidfVector := vs\<rparr>) # es)))"

definition buildKnowledgeBaseIndex ::
  "KnowledgeDocument list \<Rightarrow> int \<Rightarrow> error + KnowledgeBaseIndex" where
  "buildKnowledgeBaseIndex docs now =
     (case foldE indexDocument docs
             \<lparr>bs_inverted = [], bs_documents = \<lparr>entries = [], prototype = None\<rparr>,
              bs_vocabulary = [], bs_totalLength = 0\<rparr> of
        Inl e \<Rightarrow> Inl e
      | Inr st \<Rightarrow>
          (case foldE (setIdf (length docs)) (bs_vocabulary st) (bs_inverted st) of
             Inl e \<Rightarrow> Inl e
           | Inr inverted \<Rightarrow>
               (case tfidfEntries inverted (entries (bs_documents st)) of
                  Inl e \<Rightarrow> Inl e
                | Inr es \<Rightarrow>
                    Inr \<lparr>invertedIndex = inverted,
                         documentIndex = (bs_documents st)\<lparr>entries := es\<rparr>,
                         totalDocuments = length docs, vocabulary = bs_vocabulary st,
                         averageDocumentLength =
                           (if docs = [] then None
                            else Some (numDiv (real (bs_totalLength st)) (real (length docs)))),
                         lastIndexed = now\<rparr>)))"

section \<open>Query processing\<close>

definition synonymMap :: "(string \<times> string list) list" where
  "synonymMap =
     [(''ai'', [''artificial intelligence'', ''machine learning'', ''neural networks'',
                ''intelligent systems'']),
      (''ml'', [''machine learning'', ''artificial intelligence'', ''algorithms'',
                ''predictive models'']),
      (''data'', [''data science'', ''analytics'', ''datasets'', ''information'']),
      (''cloud'', [''cloud computing'', ''aws'', ''azure'', ''scalability'', ''distributed'']),
      (''security'', [''cybersecurity'', ''infosec'', ''encryption'', ''threats'',
                      ''protection'']),
      (''web'', [''web development'', ''frontend'', ''backend'', ''javascript'', ''html'',
                 ''css'']),
      (''mobile'', [''mobile development'', ''ios'', ''android'', ''react native'', ''apps'']),
      (''database'', [''data storage'', ''sql'', ''nosql'', ''mongodb'', ''postgresql'']),
      (''api'', [''rest'', ''graphql'', ''web services'', ''integration'', ''microservices'']),
      (''devops'', [''ci/cd'', ''automation'', ''deployment'', ''monitoring'',
                    ''infrastructure''])]"

text \<open>
  \<open>synonymMap[word]\<close> is truthy for an inherited name, and \<open>synonyms.forEach\<close> is then
  not a function. The \<open>index\<close> argument is not used by the source either.
\<close>

definition expandQueryForSmallKb :: "string list \<Rightarrow> KnowledgeBaseIndex \<Rightarrow> error + string list" where
  "expandQueryForSmallKb queryWords index =
     foldE (\<lambda>word expanded.
              case getProperty synonymMap word of
                Own synonyms \<Rightarrow> Inr (fold (\<lambda>synonym acc. setAdd acc synonym) synonyms expanded)
              | Inherited \<Rightarrow> Inl TypeError
              | Undefined \<Rightarrow> Inr expanded)
       queryWords (newSet queryWords)"

definition termMap :: "(string \<times> string list) list" where
  "termMap =
     [(''ai'', [''artificial intelligence'', ''machine learning'', ''neural networks'',
                ''deep learning'']),
      (''ml'', [''machine learning'', ''algorithms'', ''predictive models'', ''data science'']),
      (''data'', [''analytics'', ''database'', ''big data'', ''information'']),
      (''cloud'', [''aws'', ''azure'', ''scalability'', ''distributed systems'']),
      (''security'', [''cybersecurity'', ''encryption'', ''authentication'', ''threats'']),
      (''web'', [''frontend'', ''backend'', ''javascript'', ''html'', ''css'', ''react'']),
      (''mobile'', [''ios'', ''android'', ''react native'', ''flutter'', ''app development'']),
      (''database'', [''sql'', ''nosql'', ''mongodb'', ''postgresql'', ''data storage'']),
      (''api'', [''rest'', ''graphql'', ''microservices'', ''integration'']),
      (''devops'', [''ci/cd'', ''docker'', ''kubernetes'', ''automation''])]"

text \<open>\<open>relatedTerms.push(...related)\<close> raises when \<open>related\<close> is an inherited value.\<close>

definition getRelatedTerms :: "string list \<Rightarrow> error + string list" where
  "getRelatedTerms queryWords =
     foldE (\<lambda>word relatedTerms.
              case getProperty termMap word of
                Own related \<Rightarrow> Inr (relatedTerms @ related)
              | Inherited \<Rightarrow> Inl TypeError
              | Undefined \<Rightarrow> Inr relatedTerms)
       queryWords []"

definition analyzeQueryIntent :: "string list \<Rightarrow> KnowledgeDocument \<Rightarrow> nat" where
  "analyzeQueryIntent queryWords doc =
     (if (\<exists>word \<in> set queryWords.
            word \<in> set [''how'', ''guide'', ''tutorial'', ''steps'', ''process'', ''method''])
         \<and> (stringIncludes (content doc) ''##'' \<or> stringIncludes (content doc) ''###''
            \<or> stringIncludes (content doc) ''- '')
      then 15 else 0)
     + (if (\<exists>word \<in> set queryWords.
              word \<in> set [''what'', ''definition'', ''meaning'', ''explain'', ''overview''])
           \<and> (stringIncludes (title doc) ''Fundamentals'' \<or> stringIncludes (title doc) ''Overview''
              \<or> stringIncludes (content doc) ''## What'')
        then 12 else 0)
     + (if (\<exists>word \<in> set queryWords.
              word \<in> set [''vs'', ''versus'', ''compare'', ''difference'', ''better'', ''best''])
           \<and> (stringIncludes (content doc) ''vs'' \<or> stringIncludes (content doc) ''versus''
              \<or> stringIncludes (content doc) ''Advantages:''
              \<or> stringIncludes (content doc) ''Disadvantages:'')
        then 18 else 0)
     + (if (\<exists>word \<in> set queryWords.
              word \<in> set [''code'', ''implementation'', ''api'', ''framework'', ''library'',
                           ''architecture''])
           \<and> (stringIncludes (content doc) ''```'' \<or> stringIncludes (content doc) ''`''
              \<or> ''api'' \<in> set (tags doc) \<or> ''framework'' \<in> set (tags doc))
        then 20 else 0)"

fun indexOf :: "'a list \<Rightarrow> 'a \<Rightarrow> nat option" where
  "indexOf [] x = None"
| "indexOf (y # ys) x = (if y = x then Some 0 else map_option Suc (indexOf ys x))"

definition createQueryEmbedding :: "string list \<Rightarrow> string list \<Rightarrow> nat list" where
  "createQueryEmbedding queryWords vocab =
     (let embeddingSize = min 50 (length vocab)
      in fold (\<lambda>word embedding.
                 case indexOf vocab word of
                   Some i \<Rightarrow> if i < embeddingSize then embedding[i := 1] else embedding
                 | None \<Rightarrow> embedding)
           queryWords (replicate embeddingSize 0))"

text \<open>
  The entries of both embeddings are counts, so the three sums are exact.
\<close>

definition cosineSimilarity :: "nat list \<Rightarrow> nat list \<Rightarrow> real" where
  "cosineSimilarity a b =
     (let dotProduct = (\<Sum>(x, y) \<leftarrow> zip a b. x * y);
          normA = (\<Sum>(x, y) \<leftarrow> zip a b. x * x);
          normB = (\<Sum>(x, y) \<leftarrow> zip a b. y * y)
      in if normA = 0 \<or> normB = 0 then 0
         else numDiv (real dotProduct) (numMul (mathSqrt (real normA)) (mathSqrt (real normB))))"

section \<open>Regular expressions of the scorer\<close>

text \<open>
  Each pattern is modelled by a function that matches it at the start of a string and
  returns the length of the match (and the capture group where the code reads it);
  \<open>scanAll\<close> and \<open>scanLines\<close> are the \<open>exec\<close> loop of a global pattern: leftmost
  match, then on from the end of the match. Every match of these patterns is non-empty.
\<close>

fun scanAll :: "(string \<Rightarrow> nat option) \<Rightarrow> nat \<Rightarrow> string \<Rightarrow> string list" where
  "scanAll m skip [] = []"
| "scanAll m skip (c # cs) =
     (if 0 < skip then scanAll m (skip - 1) cs
      else (case m (c # cs) of
              Some len \<Rightarrow> take len (c # cs) # scanAll m (len - 1) cs
            | None \<Rightarrow> scanAll m 0 cs))"

text \<open>
  For a pattern that starts with \<open>^\<close> under the flag \<open>m\<close>: a match starts at the
  beginning of the text or right after a line terminator.
\<close>

fun scanLines :: "(string \<Rightarrow> (string \<times> nat) option) \<Rightarrow> bool \<Rightarrow> nat \<Rightarrow> string \<Rightarrow> string list" where
  "scanLines m atStart skip [] = []"
| "scanLines m atStart skip (c # cs) =
     (if 0 < skip then scanLines m (isLineTerminator c) (skip - 1) cs
      else if atStart then
        (case m (c # cs) of
           Some (cap, len) \<Rightarrow> cap # scanLines m (isLineTerminator c) (len - 1) cs
         | None \<Rightarrow> scanLines m (isLineTerminator c) 0 cs)
      else scanLines m (isLineTerminator c) 0 cs)"

text \<open>
  The tail \<open>\s+(.+)$\<close> of the header and list patterns. \<open>\s+\<close> takes the whole run of
  white space, which may span lines; the group is the rest of the line that follows.
  When the run reaches the end of the text, backtracking gives the last character of
  the run that is not a line terminator (beyond the first) to the group.
\<close>

definition matchSpaceThenLine :: "string \<Rightarrow> (string \<times> nat) option" where
  "matchSpaceThenLine r =
     (let w = takeWhile isSpace r; n = length w; rest = drop n r
      in if n = 0 then None
         else if rest \<noteq> [] then
           (let cap = takeWhile (\<lambda>c. \<not> isLineTerminator c) rest in Some (cap, n + length cap))
         else (case rev (filter (\<lambda>i. \<not> isLineTerminator (w ! i)) [1..<n]) of
                 [] \<Rightarrow> None
               | i # _ \<Rightarrow> Some ([w ! i], i + 1)))"

text \<open>\<open>/^#{1,6}\s+(.+)$/gm\<close>\<close>

definition headerAt :: "string \<Rightarrow> (string \<times> nat) option" where
  "headerAt s =
     (let h = length (takeWhile (\<lambda>c. c = CHR ''#'') s)
      in if 1 \<le> h \<and> h \<le> 6 then
           (case matchSpaceThenLine (drop h s) of
              Some (cap, len) \<Rightarrow> Some (cap, h + len)
            | None \<Rightarrow> None)
         else None)"

text \<open>\<open>/^[\s]*[-*+]\s+(.+)$/gm\<close>\<close>

definition listItemAt :: "string \<Rightarrow> (string \<times> nat) option" where
  "listItemAt s =
     (let a = length (takeWhile isSpace s)
      in case drop a s of
           [] \<Rightarrow> None
         | b # r \<Rightarrow>
             if b = CHR ''-'' \<or> b = CHR ''*'' \<or> b = CHR ''+'' then
               (case matchSpaceThenLine r of
                  Some (cap, len) \<Rightarrow> Some (cap, a + 1 + len)
                | None \<Rightarrow> None)
             else None)"

text \<open>\<open>/```[\s\S]*?```|`[^`\n]+`/g\<close>: a fenced block up to the first closing fence, else an
  inline span on one line.\<close>

fun findFence :: "string \<Rightarrow> nat option" where
  "findFence [] = None"
| "findFence (c # cs) =
     (if prefix ''```'' (c # cs) then Some 0 else map_option Suc (findFence cs))"

definition inlineCodeAt :: "string \<Rightarrow> nat option" where
  "inlineCodeAt s =
     (case s of
        [] \<Rightarrow> None
      | c # r \<Rightarrow>
          if c = CHR ''`'' then
            (let run = takeWhile (\<lambda>x. x \<noteq> CHR ''`'' \<and> x \<noteq> CHR 0x0A) r
             in if run \<noteq> [] \<and> prefix ''`'' (drop (length run) r)
                then Some (length run + 2) else None)
          else None)"

definition codeAt :: "string \<Rightarrow> nat option" where
  "codeAt s =
     (if prefix ''```'' s then
        (case findFence (drop 3 s) of
           Some k \<Rightarrow> Some (3 + k + 3)
         | None \<Rightarrow> inlineCodeAt s)
      else inlineCodeAt s)"

text \<open>
  \<open>new RegExp(`${word1}.{0,50}${word2}`, 'gi')\<close> on the lower-cased content, for
  words made of word characters: \<open>.{0,50}\<close> is greedy and does not cross a line
  terminator.
\<close>

definition proximityAt :: "string \<Rightarrow> string \<Rightarrow> string \<Rightarrow> nat option" where
  "proximityAt word1 word2 s =
     (if prefix word1 s then
        (let r = drop (length word1) s;
             k = min 50 (length (takeWhile (\<lambda>c. \<not> isLineTerminator c) r))
         in case filter (\<lambda>j. prefix word2 (drop j r)) (rev [0..<Suc k]) of
              [] \<Rightarrow> None
            | j # _ \<Rightarrow> Some (length word1 + j + length word2))
      else None)"

section \<open>Relevance scorer\<close>

text \<open>
  The body of \<open>candidateDocIds.forEach\<close> starts with \<open>score = 0\<close> and adds to it
  eighteen times or more with \<open>score += x\<close>. Each step of the source is modelled by the
  list of the amounts \<open>x\<close> that it adds, in order; \<open>rawScore\<close> adds them up with the
  rounding of a double addition after each. \<open>query\<close> is the query as received,
  \<open>queryWords\<close> its tokens, \<open>expandedQuery\<close> the tokens with their synonyms. A counter
  that the source keeps in a local variable of its own (\<open>proximityScore\<close>,
  \<open>filenameScore\<close>, \<open>temporalScore\<close>, \<open>intentScore\<close>, \<open>crossRefScore\<close>) holds a small
  integer and is a \<open>nat\<close>.
\<close>

definition countWhere :: "('a \<Rightarrow> bool) \<Rightarrow> 'a list \<Rightarrow> nat" where
  "countWhere P xs = length (filter P xs)"

text \<open>1. \<open>tfidfScore\<close> is the rounded sum of the positive entries, in query order.\<close>

definition tfidfSignal :: "string list \<Rightarrow> DocumentEntry \<Rightarrow> real list" where
  "tfidfSignal expandedQuery docEntry =
     (let matches = filter (\<lambda>tfidf. tfidf > 0)
                      (map (\<lambda>term. case map_of (tfidfVector docEntry) term of
                                     Some v \<Rightarrow> v | None \<Rightarrow> 0) expandedQuery)
      in if length matches > 0 then [numMul (foldl numAdd 0 matches) 150] else [])"

text \<open>2. \<open>score += 50\<close> for each word of the expanded query that matches a topic.\<close>

definition topicSignal :: "string list \<Rightarrow> DocumentEntry \<Rightarrow> real list" where
  "topicSignal expandedQuery docEntry =
     replicate
       (countWhere (\<lambda>word. \<exists>topic \<in> set (topics docEntry).
                               stringIncludes topic word \<or> stringIncludes word topic)
          expandedQuery)
       50"

text \<open>3. The whole query in the title, and in the content.\<close>

definition exactTitleSignal :: "string \<Rightarrow> KnowledgeDocument \<Rightarrow> real list" where
  "exactTitleSignal query doc =
     (if stringIncludes (toLowerCase (title doc)) (toLowerCase query) then [120] else [])"

definition exactContentSignal :: "string \<Rightarrow> KnowledgeDocument \<Rightarrow> real list" where
  "exactContentSignal query doc =
     (if stringIncludes (toLowerCase (content doc)) (toLowerCase query) then [80] else [])"

text \<open>4. Each pair of adjacent query words, in the title and then in the content.\<close>

definition phraseSignal :: "string list \<Rightarrow> KnowledgeDocument \<Rightarrow> real list" where
  "phraseSignal queryWords doc =
     concat (map (\<lambda>(word1, word2).
                    (if stringIncludes (toLowerCase (title doc)) (word1 @ '' '' @ word2)
                     then [40] else [])
                    @ (if stringIncludes (toLowerCase (content doc)) (word1 @ '' '' @ word2)
                       then [25] else []))
               (zip queryWords (tl queryWords)))"

text \<open>5. \<open>score += 15\<close> for each pair of a word and a tag that match.\<close>

definition tagSignal :: "string list \<Rightarrow> KnowledgeDocument \<Rightarrow> real list" where
  "tagSignal expandedQuery doc =
     replicate
       (\<Sum>word \<leftarrow> expandedQuery.
          countWhere (\<lambda>tag. toLowerCase tag = word
                             \<or> stringIncludes (toLowerCase tag) word
                             \<or> stringIncludes word (toLowerCase tag))
            (tags doc))
       15"

text \<open>6. The literal \<open>0.1\<close> is the double nearest to one tenth.\<close>

definition similaritySignal :: "string list \<Rightarrow> KnowledgeBaseIndex \<Rightarrow> DocumentEntry \<Rightarrow> real list" where
  "similaritySignal expandedQuery index docEntry =
     (let similarity = cosineSimilarity (createQueryEmbedding expandedQuery (vocabulary index))
                         (embeddings docEntry)
      in if similarity > double (1 / 10) then [numMul similarity 35] else [])"

text \<open>7.\<close>

definition coverageSignal :: "string list \<Rightarrow> KnowledgeDocument \<Rightarrow> real list" where
  "coverageSignal queryWords doc =
     (let uniqueQueryWords = newSet queryWords;
          queryCoverage = countWhere (\<lambda>word. stringIncludes (toLowerCase (content doc)) word)
                            uniqueQueryWords;
          coverageRatio = numDiv (real queryCoverage) (real (length uniqueQueryWords))
      in if coverageRatio > 0 then [numMul coverageRatio 30] else [])"

text \<open>8.\<close>

definition proximitySignal :: "string list \<Rightarrow> KnowledgeDocument \<Rightarrow> real list" where
  "proximitySignal queryWords doc =
     (let proximityScore =
            (\<Sum>(word1, word2) \<leftarrow> zip queryWords (tl queryWords).
               length (scanAll (proximityAt word1 word2) 0 (toLowerCase (content doc))) * 8)
      in if proximityScore > 0 then [real proximityScore] else [])"

text \<open>9, 10, 11. \<open>score += 12\<close>, \<open>10\<close> or \<open>6\<close> for each pair of a match of the pattern and a
  query word in it.\<close>

definition headerSignal :: "string list \<Rightarrow> KnowledgeDocument \<Rightarrow> real list" where
  "headerSignal queryWords doc =
     replicate
       (\<Sum>header \<leftarrow> scanLines headerAt True 0 (content doc).
          countWhere (\<lambda>word. stringIncludes (toLowerCase header) word) queryWords)
       12"

definition codeSignal :: "string list \<Rightarrow> KnowledgeDocument \<Rightarrow> real list" where
  "codeSignal queryWords doc =
     replicate
       (\<Sum>code \<leftarrow> scanAll codeAt 0 (content doc).
          countWhere (\<lambda>word. stringIncludes (toLowerCase code) word) queryWords)
       10"

definition listSignal :: "string list \<Rightarrow> KnowledgeDocument \<Rightarrow> real list" where
  "listSignal queryWords doc =
     replicate
       (\<Sum>item \<leftarrow> scanLines listItemAt True 0 (content doc).
          countWhere (\<lambda>word. stringIncludes (toLowerCase item) word) queryWords)
       6"

text \<open>12, 13. The literal \<open>0.3\<close> is the double nearest to three tenths.\<close>

definition wordCount :: "KnowledgeDocument \<Rightarrow> nat" where
  "wordCount doc = length (splitOn isSpace (content doc))"

definition densitySignal :: "KnowledgeDocument \<Rightarrow> real list" where
  "densitySignal doc =
     (let uniqueWords = newSet (splitOn isSpace (toLowerCase (content doc)));
          densityRatio = numDiv (real (length uniqueWords)) (real (wordCount doc))
      in if densityRatio > double (3 / 10) then [numMul densityRatio 15] else [])"

definition lengthBonus :: "KnowledgeDocument \<Rightarrow> real list" where
  "lengthBonus doc =
     (if wordCount doc > 500 then [10] else []) @ (if wordCount doc > 1000 then [15] else [])
     @ (if wordCount doc > 2000 then [20] else [])"

text \<open>14.\<close>

definition filenameSignal :: "string list \<Rightarrow> KnowledgeDocument \<Rightarrow> real list" where
  "filenameSignal queryWords doc =
     (let filenameScore =
            8 * countWhere (\<lambda>word. stringIncludes (toLowerCase (source doc)) word) queryWords
      in if filenameScore > 0 then [real filenameScore] else [])"

text \<open>15.\<close>

definition temporalTerms :: "string list" where
  "temporalTerms = [''recent'', ''latest'', ''new'', ''current'', ''modern'', ''2024'', ''2025'']"

definition temporalKeywords :: "string list" where
  "temporalKeywords =
     [''recent'', ''latest'', ''new'', ''current'', ''modern'', ''2024'', ''2025'', ''advances'',
      ''breakthroughs'', ''developments'', ''trends'', ''emerging'', ''cutting-edge'',
      ''state-of-the-art'']"

definition futureTerms :: "string list" where
  "futureTerms =
     [''future'', ''emerging'', ''evolving'', ''advancing'', ''progress'', ''innovation'',
      ''next-generation'', ''upcoming'']"

definition temporalSignal :: "bool \<Rightarrow> KnowledgeDocument \<Rightarrow> real list" where
  "temporalSignal hasTemporalQuery doc =
     (if hasTemporalQuery then
        (let temporalScore =
               20 * countWhere (\<lambda>keyword. stringIncludes (toLowerCase (content doc)) keyword)
                      temporalKeywords
               + 30 * countWhere (\<lambda>keyword. stringIncludes (toLowerCase (title doc)) keyword)
                        temporalKeywords
               + 12 * countWhere (\<lambda>term. stringIncludes (toLowerCase (content doc)) term)
                        futureTerms
         in if temporalScore > 0 then [real temporalScore] else [])
      else [])"

text \<open>16, 17, 18.\<close>

definition intentSignal :: "string list \<Rightarrow> KnowledgeDocument \<Rightarrow> real list" where
  "intentSignal queryWords doc =
     (let intentScore = analyzeQueryIntent queryWords doc
      in if intentScore > 0 then [real intentScore] else [])"

definition crossRefSignal :: "string list \<Rightarrow> KnowledgeDocument \<Rightarrow> real list" where
  "crossRefSignal relatedTerms doc =
     (let crossRefScore =
            5 * countWhere (\<lambda>term. stringIncludes (toLowerCase (content doc)) term) relatedTerms
      in if crossRefScore > 0 then [real crossRefScore] else [])"

definition relevanceBoost :: "KnowledgeDocument \<Rightarrow> real list" where
  "relevanceBoost doc = [numMul (relevance doc) 8]"

text \<open>
  The amounts added before the test of the title in step 3 (steps 1 and 2), and
  those added after it (the test of the content in step 3, and steps 4 to 18).
\<close>

definition earlierIncrements :: "string list \<Rightarrow> DocumentEntry \<Rightarrow> real list" where
  "earlierIncrements expandedQuery docEntry =
     tfidfSignal expandedQuery docEntry @ topicSignal expandedQuery docEntry"

definition laterIncrements ::
  "string \<Rightarrow> string list \<Rightarrow> string list \<Rightarrow> bool \<Rightarrow> string list \<Rightarrow> KnowledgeBaseIndex
     \<Rightarrow> DocumentEntry \<Rightarrow> real list" where
  "laterIncrements query queryWords expandedQuery hasTemporalQuery relatedTerms index docEntry =
     (let doc = document docEntry
      in exactContentSignal query doc
         @ phraseSignal queryWords doc
         @ tagSignal expandedQuery doc
         @ similaritySignal expandedQuery index docEntry
         @ coverageSignal queryWords doc
         @ proximitySignal queryWords doc
         @ headerSignal queryWords doc
         @ codeSignal queryWords doc
         @ listSignal queryWords doc
         @ densitySignal doc
         @ lengthBonus doc
         @ filenameSignal queryWords doc
         @ temporalSignal hasTemporalQuery doc
         @ intentSignal queryWords doc
         @ crossRefSignal relatedTerms doc
         @ relevanceBoost doc)"

text \<open>The value of \<open>score\<close> at the threshold test.\<close>

definition rawScore ::
  "string \<Rightarrow> string list \<Rightarrow> string list \<Rightarrow> bool \<Rightarrow> string list \<Rightarrow> KnowledgeBaseIndex
     \<Rightarrow> DocumentEntry \<Rightarrow> real" where
  "rawScore query queryWords expandedQuery hasTemporalQuery relatedTerms index docEntry =
     foldl numAdd 0
       (earlierIncrements expandedQuery docEntry
        @ exactTitleSignal query (document docEntry)
        @ laterIncrements query queryWords expandedQuery hasTemporalQuery relatedTerms index
            docEntry)"

text \<open>\<open>Math.min(Math.round((score / 2000) * 100), 100)\<close>\<close>

definition normalizedScore :: "real \<Rightarrow> int" where
  "normalizedScore score = min (mathRound (numMul (numDiv score 2000) 100)) 100"

section \<open>Search\<close>

text \<open>
  \<open>results.sort((a, b) => b.searchScore - a.searchScore).slice(0, maxResults)\<close>; the
  sort of an array is stable.
\<close>

definition topResults :: "int \<Rightarrow> ScoredDocument list \<Rightarrow> ScoredDocument list" where
  "topResults maxResults results =
     slice0 maxResults (sort_key (\<lambda>r. - searchScore r) results)"

definition basicStopWords :: "string list" where
  "basicStopWords =
     [''what'', ''is'', ''are'', ''the'', ''how'', ''why'', ''when'', ''where'', ''can'',
      ''could'', ''would'', ''should'', ''do'', ''does'', ''did'', ''a'', ''an'', ''and'',
      ''or'', ''but'', ''in'', ''on'', ''at'', ''to'', ''for'', ''of'', ''with'', ''by'',
      ''from'', ''about'', ''search'', ''find'', ''tell'', ''me'', ''give'', ''show'',
      ''explain'', ''describe'', ''want'', ''know'', ''need'', ''help'']"

definition basicScore :: "string list \<Rightarrow> KnowledgeDocument \<Rightarrow> nat" where
  "basicScore queryWords doc =
     (\<Sum>word \<leftarrow> queryWords.
        (if stringIncludes (toLowerCase (title doc)) word then 10 else 0)
        + (if stringIncludes (toLowerCase (content doc)) word then 5 else 0))"

definition basicResults :: "string list \<Rightarrow> KnowledgeDocument list \<Rightarrow> ScoredDocument list" where
  "basicResults queryWords docs =
     map (\<lambda>doc. \<lparr>scored = doc,
                  searchScore =
                    min (mathRound (numMul (numDiv (real (basicScore queryWords doc)) 50) 100))
                      100\<rparr>)
       (filter (\<lambda>doc. basicScore queryWords doc > 0) docs)"

definition searchDocumentsBasic ::
  "string \<Rightarrow> KnowledgeDocument list \<Rightarrow> int \<Rightarrow> ScoredDocument list" where
  "searchDocumentsBasic query docs maxResults =
     (let queryWords = filter (\<lambda>word. length word > 2 \<and> word \<notin> set basicStopWords)
                         (splitOn isSpace (toLowerCase query))
      in if queryWords = [] then [] else topResults maxResults (basicResults queryWords docs))"

text \<open>
  The candidate set: \<open>termEntry.documents.forEach\<close> raises when \<open>termEntry\<close> is an
  inherited value.
\<close>

definition candidateDocIds :: "KnowledgeBaseIndex \<Rightarrow> string list \<Rightarrow> error + string list" where
  "candidateDocIds index expandedQuery =
     foldE (\<lambda>term candidates.
              case getProperty (invertedIndex index) term of
                Own termEntry \<Rightarrow> Inr (fold (\<lambda>docId acc. setAdd acc docId) (documents termEntry) candidates)
              | Inherited \<Rightarrow> Inl TypeError
              | Undefined \<Rightarrow> Inr candidates)
       expandedQuery []"

text \<open>
  The read \<open>documentIndex[docId]\<close>. An own property is found first. The name
  \<open>__proto__\<close> reads the prototype: the entry that an assignment has installed
  (returned as \<open>Own\<close>, since the scorer gets a document entry), or \<open>Object.prototype\<close>.
  Any other name is looked up along the prototype chain: in the fields of an installed
  entry, where \<open>length\<close> holds a number (falsy when 0) and the other fields hold
  objects, and then in \<open>Object.prototype\<close>.
\<close>

definition entryFieldNames :: "string list" where
  "entryFieldNames =
     [''document'', ''termFrequency'', ''tfidfVector'', ''length'', ''topics'', ''embeddings'']"

definition getDocumentEntry :: "DocumentIndex \<Rightarrow> string \<Rightarrow> DocumentEntry property" where
  "getDocumentEntry index k =
     (case map_of (entries index) k of
        Some e \<Rightarrow> Own e
      | None \<Rightarrow>
          (case prototype index of
             None \<Rightarrow> if k \<in> set objectPrototypeNames then Inherited else Undefined
           | Some p \<Rightarrow>
               if k = ''__proto__'' then Own p
               else if k = ''length'' then (if doc_length p = 0 then Undefined else Inherited)
               else if k \<in> set entryFieldNames \<or> k \<in> set objectPrototypeNames then Inherited
               else Undefined))"

text \<open>
  The loop over the candidates: the array \<open>results\<close> before it is sorted. A candidate
  without a document entry is skipped; an inherited value in place of the entry has no
  \<open>document\<close>, and reading \<open>doc.title\<close> raises.
\<close>

fun scoreCandidates ::
  "string \<Rightarrow> string list \<Rightarrow> string list \<Rightarrow> bool \<Rightarrow> KnowledgeBaseIndex \<Rightarrow> string list
     \<Rightarrow> error + ScoredDocument list" where
  "scoreCandidates query queryWords expandedQuery hasTemporalQuery index [] = Inr []"
| "scoreCandidates query queryWords expandedQuery hasTemporalQuery index (docId # rest) =
     (case getDocumentEntry (documentIndex index) docId of
        Undefined \<Rightarrow> scoreCandidates query queryWords expandedQuery hasTemporalQuery index rest
      | Inherited \<Rightarrow> Inl TypeError
      | Own docEntry \<Rightarrow>
          (case getRelatedTerms queryWords of
             Inl e \<Rightarrow> Inl e
           | Inr relatedTerms \<Rightarrow>
               (case scoreCandidates query queryWords expandedQuery hasTemporalQuery index rest of
                  Inl e \<Rightarrow> Inl e
                | Inr results \<Rightarrow>
                    (let score = rawScore query queryWords expandedQuery hasTemporalQuery
                                   relatedTerms index docEntry
                     in if score > 8
                        then Inr (\<lparr>scored = document docEntry,
                                   searchScore = normalizedScore score\<rparr> # results)
                        else Inr results))))"

text \<open>The body of the \<open>try\<close> block of \<open>searchDocuments\<close>, for an index that is present.\<close>

definition indexedResults :: "string \<Rightarrow> KnowledgeBaseIndex \<Rightarrow> error + ScoredDocument list" where
  "indexedResults query index =
     (let queryWords = tokenizeAndNormalize query;
          hasTemporalQuery = (\<exists>word \<in> set queryWords. word \<in> set temporalTerms)
      in case expandQueryForSmallKb queryWords index of
           Inl e \<Rightarrow> Inl e
         | Inr expandedQuery \<Rightarrow>
             (case candidateDocIds index expandedQuery of
                Inl e \<Rightarrow> Inl e
              | Inr candidates \<Rightarrow>
                  if candidates = [] then Inr []
                  else scoreCandidates query queryWords expandedQuery hasTemporalQuery index
                         candidates))"

definition searchDocuments ::
  "string \<Rightarrow> KnowledgeDocument list \<Rightarrow> int \<Rightarrow> KnowledgeBaseIndex option \<Rightarrow> ScoredDocument list" where
  "searchDocuments query docs maxResults knowledgeBaseIndex =
     (case knowledgeBaseIndex of
        None \<Rightarrow> searchDocumentsBasic query docs maxResults
      | Some index \<Rightarrow>
          if tokenizeAndNormalize query = [] then []
          else (case indexedResults query index of
                  Inl e \<Rightarrow> searchDocumentsBasic query docs maxResults
                | Inr results \<Rightarrow> topResults maxResults results))"

section \<open>The candidates that a search ranks\<close>

text \<open>
  The array \<open>results\<close> that the search sorts and truncates: the candidates that pass
  the threshold, scored by the indexed search, or by the basic search when there is no
  index or the indexed search raises; it is empty when the search returns before it
  scores.
\<close>

definition basicCandidates :: "string \<Rightarrow> KnowledgeDocument list \<Rightarrow> ScoredDocument list" where
  "basicCandidates query docs =
     (let queryWords = filter (\<lambda>word. length word > 2 \<and> word \<notin> set basicStopWords)
                         (splitOn isSpace (toLowerCase query))
      in if queryWords = [] then [] else basicResults queryWords docs)"

definition scoredCandidates ::
  "string \<Rightarrow> KnowledgeDocument list \<Rightarrow> KnowledgeBaseIndex option \<Rightarrow> ScoredDocument list" where
  "scoredCandidates query docs knowledgeBaseIndex =
     (case knowledgeBaseIndex of
        None \<Rightarrow> basicCandidates query docs
      | Some index \<Rightarrow>
          if tokenizeAndNormalize query = [] then []
          else (case indexedResults query index of
                  Inl e \<Rightarrow> basicCandidates query docs
                | Inr results \<Rightarrow> results))"

section \<open>Index cache and document loading\<close>

text \<open>
  What \<open>loadKnowledgeBaseDocuments\<close> finds on disk: the directory is missing, reading
  it raises, or it lists the markdown files in sorted order. A file is given by the
  outcome of reading and parsing it: \<open>None\<close> when \<open>readFileSync\<close> raises or
  \<open>parseMarkdownDocument\<close> returns \<open>null\<close>, both of which skip the file.
\<close>

datatype KnowledgeBaseDir = DirMissing | ReadDirFails | MdFiles "KnowledgeDocument option list"

text \<open>
  \<open>Object.values\<close> lists the properties whose names are array indices first, in
  numeric order, then the others in insertion order.
\<close>

definition decimalValue :: "string \<Rightarrow> nat" where
  "decimalValue k = foldl (\<lambda>n c. 10 * n + (of_char c - 48)) 0 k"

definition isArrayIndex :: "string \<Rightarrow> bool" where
  "isArrayIndex k =
     (k \<noteq> [] \<and> (\<forall>c \<in> set k. 48 \<le> (of_char c :: nat) \<and> (of_char c :: nat) \<le> 57)
      \<and> (k = ''0'' \<or> hd k \<noteq> CHR ''0'') \<and> decimalValue k < 4294967295)"

definition objectValues :: "(string \<times> 'a) list \<Rightarrow> 'a list" where
  "objectValues obj =
     map snd (sort_key (\<lambda>p. decimalValue (fst p)) (filter (\<lambda>p. isArrayIndex (fst p)) obj)
              @ filter (\<lambda>p. \<not> isArrayIndex (fst p)) obj)"

text \<open>
  The part of \<open>loadKnowledgeBaseDocuments\<close> after the cache test: the documents it
  returns and the value it leaves in \<open>knowledgeBaseIndex\<close>.
\<close>

definition parsedDocuments :: "KnowledgeDocument option list \<Rightarrow> KnowledgeDocument list" where
  "parsedDocuments files = concat (map (\<lambda>f. case f of Some doc \<Rightarrow> [doc] | None \<Rightarrow> []) files)"

definition rebuildIndex ::
  "int \<Rightarrow> KnowledgeBaseDir \<Rightarrow> KnowledgeDocument list \<times> KnowledgeBaseIndex option" where
  "rebuildIndex now dir =
     (case dir of
        DirMissing \<Rightarrow> ([], Some (createEmptyIndex now))
      | ReadDirFails \<Rightarrow> ([], Some (createEmptyIndex now))
      | MdFiles files \<Rightarrow>
          if files = [] then ([], Some (createEmptyIndex now))
          else (let docs = parsedDocuments files
                in case buildKnowledgeBaseIndex docs now of
                     Inl e \<Rightarrow> ([], Some (createEmptyIndex now))
                   | Inr index \<Rightarrow> (docs, Some index)))"

definition loadKnowledgeBaseDocuments ::
  "int \<Rightarrow> KnowledgeBaseDir \<Rightarrow> KnowledgeBaseIndex option
     \<Rightarrow> KnowledgeDocument list \<times> KnowledgeBaseIndex option" where
  "loadKnowledgeBaseDocuments now dir knowledgeBaseIndex =
     (case knowledgeBaseIndex of
        Some index \<Rightarrow>
          if now - lastIndexed index < CACHE_TTL
          then (map document (objectValues (entries (documentIndex index))), Some index)
          else rebuildIndex now dir
      | None \<Rightarrow> rebuildIndex now dir)"

text \<open>
  The cache test of \<open>loadKnowledgeBaseDocuments\<close>, and the rebuilds that end in one of
  the two places that install the empty index on a failure: the directory is missing,
  or an exception reaches the outer \<open>catch\<close> (reading the directory or building the
  index raises).
\<close>

definition cacheFresh :: "int \<Rightarrow> KnowledgeBaseIndex option \<Rightarrow> bool" where
  "cacheFresh now knowledgeBaseIndex =
     (case knowledgeBaseIndex of
        Some index \<Rightarrow> now - lastIndexed index < CACHE_TTL
      | None \<Rightarrow> False)"

definition rebuildFails :: "int \<Rightarrow> KnowledgeBaseDir \<Rightarrow> bool" where
  "rebuildFails now dir =
     (case dir of
        DirMissing \<Rightarrow> True
      | ReadDirFails \<Rightarrow> True
      | MdFiles files \<Rightarrow>
          files \<noteq> [] \<and> isl (buildKnowledgeBaseIndex (parsedDocuments files) now))"

section \<open>The search endpoint\<close>

text \<open>
  A request is what the handler reads from the body: the string of \<open>body.query\<close>
  (empty when it is missing) and the value of \<open>parseInt(body.maxResults)\<close>, which is
  \<open>NaN\<close> for a missing or non-numeric field and an integer otherwise. The response
  is the JSON body with its HTTP status; \<open>searchTime\<close> is left out. The search is
  synchronous, so the timeout of \<open>Promise.race\<close> never wins.
\<close>

datatype parsedInt = NaN | Num int

record SearchRequest =
  query :: string
  maxResults :: parsedInt

record SearchResponse =
  status :: nat
  results :: "ScoredDocument list"
  total_documents :: nat
  success :: bool
  error_message :: "string option"

text \<open>\<open>Math.min(parseInt(body.maxResults) || MAX_RESULTS, 10)\<close>: \<open>NaN\<close> and \<open>0\<close> are falsy.\<close>

definition effectiveMaxResults :: "parsedInt \<Rightarrow> int" where
  "effectiveMaxResults p =
     min (case p of NaN \<Rightarrow> MAX_RESULTS | Num n \<Rightarrow> if n = 0 then MAX_RESULTS else n) 10"

definition trimContent :: "ScoredDocument \<Rightarrow> ScoredDocument" where
  "trimContent r =
     r\<lparr>scored := (scored r)\<lparr>content :=
          (if length (content (scored r)) > MAX_CONTENT_LENGTH
           then take MAX_CONTENT_LENGTH (content (scored r)) @ ''...''
           else content (scored r))\<rparr>\<rparr>"

definition errorResponse :: "nat \<Rightarrow> string \<Rightarrow> SearchResponse" where
  "errorResponse code msg =
     \<lparr>status = code, results = [], total_documents = 0, success = False,
      error_message = Some msg\<rparr>"

definition POST ::
  "int \<Rightarrow> KnowledgeBaseDir \<Rightarrow> KnowledgeBaseIndex option \<Rightarrow> SearchRequest
     \<Rightarrow> SearchResponse \<times> KnowledgeBaseIndex option" where
  "POST now dir knowledgeBaseIndex request =
     (let q = trim (query request);
          limit = effectiveMaxResults (maxResults request)
      in if q = [] \<or> length q < 2 then
           (errorResponse 400 ''Query must be at least 2 characters long'', knowledgeBaseIndex)
         else if length q > 500 then
           (errorResponse 400 ''Query is too long (max 500 characters)'', knowledgeBaseIndex)
         else (case loadKnowledgeBaseDocuments now dir knowledgeBaseIndex of
                 (docs, cache) \<Rightarrow>
                   if docs = [] then
                     (errorResponse 503 ''No documents available in knowledge base'', cache)
                   else
                     (\<lparr>status = 200,
                       results = map trimContent (searchDocuments q docs limit cache),
                       total_documents = length docs, success = True,
                       error_message = None\<rparr>, cache)))"

section \<open>Invariants of the index builder\<close>

text \<open>
  The document ids that the inverted index lists for a term, the well-formedness of an
  inverted index (one entry per term, no repeated id in an entry, no term that is a
  name inherited from \<open>Object.prototype\<close>), what the first pass has recorded in an
  entry of the document index, the invariant of the first pass after the documents
  \<open>ds\<close>, and what holds of a finished index.
\<close>

definition postings :: "(string \<times> InvertedEntry) list \<Rightarrow> string \<Rightarrow> string set" where
  "postings inverted t = (case map_of inverted t of Some e \<Rightarrow> set (documents e) | None \<Rightarrow> {})"

definition wfInverted :: "(string \<times> InvertedEntry) list \<Rightarrow> bool" where
  "wfInverted inverted \<longleftrightarrow>
     distinct (map fst inverted) \<and> (\<forall>p \<in> set inverted. distinct (documents (snd p)))
     \<and> fst ` set inverted \<inter> set objectPrototypeNames = {}"

definition entryOf :: "KnowledgeDocument list \<Rightarrow> string \<Rightarrow> DocumentEntry \<Rightarrow> bool" where
  "entryOf ds k e \<longleftrightarrow>
     doc_id (document e) = k
     \<and> document e \<in> set ds
     \<and> distinct (map fst (termFrequency e))
     \<and> fst ` set (termFrequency e) = set (documentTokens (document e))
     \<and> doc_length e = length (documentTokens (document e))"

definition buildInv :: "KnowledgeDocument list \<Rightarrow> BuildState \<Rightarrow> bool" where
  "buildInv ds st \<longleftrightarrow>
     wfInverted (bs_inverted st)
     \<and> fst ` set (bs_inverted st) = (\<Union>d \<in> set ds. set (documentTokens d))
     \<and> set (bs_vocabulary st) = (\<Union>d \<in> set ds. set (documentTokens d))
     \<and> distinct (bs_vocabulary st)
     \<and> (\<forall>t. postings (bs_inverted st) t = doc_id ` {d \<in> set ds. t \<in> set (documentTokens d)})
     \<and> distinct (map fst (entries (bs_documents st)))
     \<and> fst ` set (entries (bs_documents st)) = doc_id ` set ds - {''__proto__''}
     \<and> (\<forall>p \<in> set (entries (bs_documents st)). entryOf ds (fst p) (snd p))
     \<and> (prototype (bs_documents st) = None \<longleftrightarrow> ''__proto__'' \<notin> doc_id ` set ds)
     \<and> (\<forall>e. prototype (bs_documents st) = Some e \<longrightarrow>
            entryOf ds ''__proto__'' e \<and> tfidfVector e = [])"

definition builtIndex :: "KnowledgeDocument list \<Rightarrow> KnowledgeBaseIndex \<Rightarrow> bool" where
  "builtIndex docs index \<longleftrightarrow>
     set (vocabulary index) = (\<Union>d \<in> set docs. set (documentTokens d))
     \<and> distinct (vocabulary index)
     \<and> fst ` set (invertedIndex index) = (\<Union>d \<in> set docs. set (documentTokens d))
     \<and> fst ` set (invertedIndex index) \<inter> set objectPrototypeNames = {}
     \<and> (\<forall>t e. map_of (invertedIndex index) t = Some e \<longrightarrow>
            set (documents e) = doc_id ` {d \<in> set docs. t \<in> set (documentTokens d)}
            \<and> distinct (documents e)
            \<and> idf e = mathLog (numDiv (real (length docs)) (real (1 + length (documents e)))))
     \<and> distinct (map fst (entries (documentIndex index)))
     \<and> fst ` set (entries (documentIndex index)) = doc_id ` set docs - {''__proto__''}
     \<and> (\<forall>p \<in> set (entries (documentIndex index)).
           entryOf docs (fst p) (snd p)
           \<and> tfidfVector (snd p) =
               map (\<lambda>q. (fst q, numMul (numDiv (real (snd q)) (real (doc_length (snd p))))
                                    (idf (the (map_of (invertedIndex index) (fst q))))))
                 (termFrequency (snd p)))
     \<and> (prototype (documentIndex index) = None \<longleftrightarrow> ''__proto__'' \<notin> doc_id ` set docs)
     \<and> (\<forall>e. prototype (documentIndex index) = Some e \<longrightarrow>
            entryOf docs ''__proto__'' e \<and> tfidfVector e = [])
     \<and> totalDocuments index = length docs"

text \<open>
  The document frequency in the words of the specification: the number of documents
  that contain the term.
\<close>

definition documentFrequency :: "KnowledgeDocument list \<Rightarrow> string \<Rightarrow> nat" where
  "documentFrequency docs t = length (filter (\<lambda>d. t \<in> set (documentTokens d)) docs)"

text \<open>
  The \<open>idf\<close> that the index built from \<open>docs\<close> stores for a term (\<open>None\<close> when the
  build raises or the term is not indexed).
\<close>

definition builtIdf :: "KnowledgeDocument list \<Rightarrow> string \<Rightarrow> real option" where
  "builtIdf docs t =
     (case buildKnowledgeBaseIndex docs 0 of
        Inr index \<Rightarrow> map_option idf (map_of (invertedIndex index) t)
      | Inl e \<Rightarrow> None)"

section \<open>Example knowledge bases\<close>

text \<open>
  \<open>calculateRelevance\<close> of \<open>parseMarkdownDocument\<close>, which gives a parsed document its
  \<open>relevance\<close>: the literals \<open>0.1\<close>, \<open>0.02\<close> and \<open>0.2\<close> are the nearest doubles.
\<close>

definition calculateRelevance :: "string \<Rightarrow> string \<Rightarrow> string list \<Rightarrow> real" where
  "calculateRelevance docTitle docContent docTags =
     (let score = 1 / 2;
          score = (if length docTitle > 10 then numAdd score (double (1 / 10)) else score);
          score = (if stringIncludes docTitle ''Fundamentals'' \<or> stringIncludes docTitle ''Guide''
                   then numAdd score (double (1 / 10)) else score);
          score = (if length docContent > 500 then numAdd score (double (1 / 10)) else score);
          score = (if length docContent > 1000 then numAdd score (double (1 / 10)) else score);
          score = (if length docContent > 2000 then numAdd score (double (1 / 10)) else score);
          score = numAdd score
                    (min (numMul (real (length docTags)) (double (2 / 100))) (double (2 / 10)))
      in min score 1)"

text \<open>
  Two files, \<open>cloud-computing.md\<close> and \<open>machine-learning.md\<close>, as
  \<open>parseMarkdownDocument\<close> returns them (with relevance \<open>0.64\<close> and
  \<open>0.6599999999999999\<close>), and the index built from them.
\<close>

definition cloudDoc :: KnowledgeDocument where
  "cloudDoc =
     \<lparr>doc_id = ''cloud_computing'', title = ''Cloud Computing'',
      content = ''Cloud platforms provide scalable storage.'',
      tags = [''cloud'', ''computing''],
      source = ''cloud-computing.md'',
      relevance = 5764607523034235 / 9007199254740992\<rparr>"

definition mlDoc :: KnowledgeDocument where
  "mlDoc =
     \<lparr>doc_id = ''machine_learning'', title = ''Machine Learning'',
      content = ''Machine learning.'',
      tags = [''machine'', ''learning'', ''machine learning''],
      source = ''machine-learning.md'',
      relevance = 2972375754064527 / 4503599627370496\<rparr>"

definition exampleDir :: KnowledgeBaseDir where
  "exampleDir = MdFiles [Some cloudDoc, Some mlDoc]"

definition exampleIndex :: KnowledgeBaseIndex where
  "exampleIndex =
     \<lparr>invertedIndex =
        [(''cloud'', \<lparr>documents = [''cloud_computing''], frequency = 2, idf = 0\<rparr>),
         (''computing'', \<lparr>documents = [''cloud_computing''], frequency = 1, idf = 0\<rparr>),
         (''platforms'', \<lparr>documents = [''cloud_computing''], frequency = 1, idf = 0\<rparr>),
         (''provide'', \<lparr>documents = [''cloud_computing''], frequency = 1, idf = 0\<rparr>),
         (''scalable'', \<lparr>documents = [''cloud_computing''], frequency = 1, idf = 0\<rparr>),
         (''storage'', \<lparr>documents = [''cloud_computing''], frequency = 1, idf = 0\<rparr>),
         (''machine'', \<lparr>documents = [''machine_learning''], frequency = 2, idf = 0\<rparr>),
         (''learning'', \<lparr>documents = [''machine_learning''], frequency = 2, idf = 0\<rparr>)],
      documentIndex =
        \<lparr>entries =
           [(''cloud_computing'',
             \<lparr>document = cloudDoc,
              termFrequency =
                [(''cloud'', 2), (''computing'', 1), (''platforms'', 1), (''provide'', 1),
                 (''scalable'', 1), (''storage'', 1)],
              tfidfVector =
                [(''cloud'', 0), (''computing'', 0), (''platforms'', 0), (''provide'', 0),
                 (''scalable'', 0), (''storage'', 0)],
              doc_length = 7, topics = [''cloud'', ''computing''],
              embeddings = [2, 1, 1, 1, 1, 1]\<rparr>),
            (''machine_learning'',
             \<lparr>document = mlDoc,
              termFrequency = [(''machine'', 2), (''learning'', 2)],
              tfidfVector = [(''machine'', 0), (''learning'', 0)],
              doc_length = 4, topics = [''machine'', ''learning''],
              embeddings = [0, 0, 0, 0, 0, 0, 2, 2]\<rparr>)],
         prototype = None\<rparr>,
      totalDocuments = 2,
      vocabulary =
        [''cloud'', ''computing'', ''platforms'', ''provide'', ''scalable'', ''storage'',
         ''machine'', ''learning''],
      averageDocumentLength = Some (11 / 2), lastIndexed = 0\<rparr>"

text \<open>
  Two files whose names, \<open>a-b.md\<close> and \<open>a_b.md\<close>, give the same document id.
\<close>

definition sameIdDocs :: "KnowledgeDocument list" where
  "sameIdDocs =
     [\<lparr>doc_id = ''a_b'', title = ''Alpha'', content = ''gamma delta'', tags = [''alpha''],
       source = ''a-b.md'', relevance = 1170935903116329 / 2251799813685248\<rparr>,
      \<lparr>doc_id = ''a_b'', title = ''Beta'', content = ''gamma'', tags = [''beta''],
       source = ''a_b.md'', relevance = 1170935903116329 / 2251799813685248\<rparr>]"

text \<open>
  A file \<open>java-classes.md\<close> whose content has the word \<open>constructor\<close>, and a file
  \<open>__proto__.md\<close>, whose id is \<open>__proto__\<close>.
\<close>

definition constructorDoc :: KnowledgeDocument where
  "constructorDoc =
     \<lparr>doc_id = ''java_classes'', title = ''Java Classes'',
      content = ''A constructor builds objects.'',
      tags = [''java'', ''classes''],
      source = ''java-classes.md'',
      relevance = 5764607523034235 / 9007199254740992\<rparr>"

definition protoDoc :: KnowledgeDocument where
  "protoDoc =
     \<lparr>doc_id = ''__proto__'', title = ''Prototype Chains'',
      content = ''Prototype chains.'',
      tags = [''proto'', ''prototype'', ''chains'', ''ai''],
      source = ''__proto__.md'',
      relevance = 3062447746611937 / 4503599627370496\<rparr>"

text \<open>
  Three files, \<open>cloud-backup.md\<close>, \<open>cloud-security.md\<close> and \<open>pricing-tiers.md\<close>, as
  \<open>parseMarkdownDocument\<close> returns them, and the cache after they are loaded.
\<close>

definition backupDoc :: KnowledgeDocument where
  "backupDoc =
     \<lparr>doc_id = ''cloud_backup'', title = ''Cloud Backup'',
      content = ''Cloud backup plans.'',
      tags = [''cloud'', ''backup''],
      source = ''cloud-backup.md'',
      relevance = 5764607523034235 / 9007199254740992\<rparr>"

definition securityDoc :: KnowledgeDocument where
  "securityDoc =
     \<lparr>doc_id = ''cloud_security'', title = ''Cloud Security'',
      content = ''Cloud security rules.'',
      tags = [''cloud'', ''security''],
      source = ''cloud-security.md'',
      relevance = 5764607523034235 / 9007199254740992\<rparr>"

definition pricingDoc :: KnowledgeDocument where
  "pricingDoc =
     \<lparr>doc_id = ''pricing_tiers'', title = ''Pricing Tiers'',
      content = ''Cloud pricing tiers.'',
      tags = [''pricing'', ''tiers'', ''cloud''],
      source = ''pricing-tiers.md'',
      relevance = 2972375754064527 / 4503599627370496\<rparr>"

definition rankingDir :: KnowledgeBaseDir where
  "rankingDir = MdFiles [Some backupDoc, Some securityDoc, Some pricingDoc]"

definition rankingCache :: "KnowledgeBaseIndex option" where
  "rankingCache = snd (loadKnowledgeBaseDocuments 0 rankingDir None)"

text \<open>
  A file \<open>backup-guide.md\<close> whose content has the word \<open>this\<close>, a stop word of the
  tokenizer that the basic search does not drop.
\<close>

definition guideDoc :: KnowledgeDocument where
  "guideDoc =
     \<lparr>doc_id = ''backup_guide'', title = ''Backup Guide'',
      content = ''This guide covers storage backups.'',
      tags = [''backup'', ''guide''],
      source = ''backup-guide.md'',
      relevance = 3332663724254167 / 4503599627370496\<rparr>"

definition fallbackDir :: KnowledgeBaseDir where
  "fallbackDir = MdFiles [Some guideDoc, Some cloudDoc]"

section \<open>Rounding to a double\<close>

lemma halvings_bounds:
  "1 \<le> x \<Longrightarrow> 2 ^ halvings x \<le> x \<and> x < 2 * 2 ^ halvings x"
proof (induction x rule: halvings.induct)
  case (1 x)
  show ?case
  proof (cases "2 \<le> x")
    case True
    then have "1 \<le> x / 2" by simp
    from "1.IH" [OF True this] True show ?thesis
      by (subst (1 2) halvings.simps) (simp add: field_simps)
  next
    case False
    with "1.prems" show ?thesis by (subst (1 2) halvings.simps) simp
  qed
qed

lemma doublings_bounds:
  "0 < x \<Longrightarrow> x < 1 \<Longrightarrow> 1 \<le> x * 2 ^ doublings x \<and> x * 2 ^ doublings x < 2"
proof (induction x rule: doublings.induct)
  case (1 x)
  show ?case
  proof (cases "2 * x < 1")
    case True
    with "1.prems" have "0 < x \<and> x < 1" "0 < 2 * x" by simp_all
    from "1.IH" [OF this(1) this(2) True] "1.prems" show ?thesis
      by (subst (1 2) doublings.simps) (simp add: field_simps)
  next
    case False
    then have "doublings (2 * x) = 0" by (subst doublings.simps) simp
    with "1.prems" False show ?thesis
      by (subst (1 2) doublings.simps) simp
  qed
qed

lemma two_powi_mult: "(2::real) powi a * 2 powi b = 2 powi (a + b)"
  by (rule power_int_add [symmetric]) simp

lemma binaryExponent_bounds:
  assumes "x \<noteq> 0"
  shows "2 powi binaryExponent x \<le> \<bar>x\<bar>" and "\<bar>x\<bar> < 2 powi (binaryExponent x + 1)"
proof -
  have "2 powi binaryExponent x \<le> \<bar>x\<bar> \<and> \<bar>x\<bar> < 2 powi (binaryExponent x + 1)"
  proof (cases "1 \<le> \<bar>x\<bar>")
    case True
    from halvings_bounds [OF True] True show ?thesis
      by (simp add: binaryExponent_def power_int_add)
  next
    case False
    with assms have "0 < \<bar>x\<bar>" "\<bar>x\<bar> < 1" by simp_all
    note d = doublings_bounds [OF this]
    define p :: real where "p = 2 ^ doublings \<bar>x\<bar>"
    have p: "0 < p" by (simp add: p_def)
    have e: "binaryExponent x = - int (doublings \<bar>x\<bar>)"
      using False by (simp add: binaryExponent_def)
    have a: "(2::real) powi (- int (doublings \<bar>x\<bar>)) = inverse p"
      by (simp add: power_int_minus p_def)
    have "(2::real) powi (- int (doublings \<bar>x\<bar>) + 1)
            = 2 powi (- int (doublings \<bar>x\<bar>)) * 2 powi 1"
      by (rule power_int_add) simp
    then have b: "(2::real) powi (- int (doublings \<bar>x\<bar>) + 1) = inverse p * 2"
      by (simp only: a power_int_1_right)
    from d have "1 \<le> \<bar>x\<bar> * p" and "\<bar>x\<bar> * p < 2" by (simp_all add: p_def)
    with p have "inverse p \<le> \<bar>x\<bar> \<and> \<bar>x\<bar> < inverse p * 2"
      by (simp add: field_simps)
    then show ?thesis by (simp only: e a b)
  qed
  then show "2 powi binaryExponent x \<le> \<bar>x\<bar>" and "\<bar>x\<bar> < 2 powi (binaryExponent x + 1)"
    by simp_all
qed

lemma power_int_two_less_imp:
  assumes "(2::real) powi a < 2 powi b"
  shows "a < b"
proof (rule ccontr)
  assume "\<not> a < b"
  then have "b \<le> a" by simp
  then have "(2::real) powi b \<le> 2 powi a" by (intro power_int_increasing) simp_all
  with assms show False by simp
qed

lemma binaryExponent_unique:
  assumes "2 powi e \<le> \<bar>x\<bar>" and "\<bar>x\<bar> < 2 powi (e + 1)"
  shows "binaryExponent x = e"
proof -
  from assms(1) have "0 < \<bar>x\<bar>"
    by (rule less_le_trans [rotated]) simp
  then have x: "x \<noteq> 0" by simp
  note b = binaryExponent_bounds [OF x]
  from b(1) assms(2) have "(2::real) powi binaryExponent x < 2 powi (e + 1)" by simp
  then have "binaryExponent x < e + 1" by (rule power_int_two_less_imp)
  moreover from assms(1) b(2) have "(2::real) powi e < 2 powi (binaryExponent x + 1)" by simp
  then have "e < binaryExponent x + 1" by (rule power_int_two_less_imp)
  ultimately show ?thesis by simp
qed

lemma binaryExponent_minus [simp]: "binaryExponent (- x) = binaryExponent x"
  by (simp add: binaryExponent_def)

lemma roundHalfEven_error: "\<bar>of_int (roundHalfEven y) - y\<bar> \<le> 1 / 2"
  by (simp add: roundHalfEven_def Let_def)

lemma roundHalfEven_of_int [simp]: "roundHalfEven (of_int n) = n"
  by (simp add: roundHalfEven_def)

lemma roundHalfEven_ge: "of_int n \<le> y \<Longrightarrow> n \<le> roundHalfEven y"
  by (simp add: roundHalfEven_def Let_def) linarith

lemma roundHalfEven_le: "y \<le> of_int n \<Longrightarrow> roundHalfEven y \<le> n"
  by (simp add: roundHalfEven_def Let_def) linarith

lemma roundHalfEven_mono:
  assumes "y \<le> z"
  shows "roundHalfEven y \<le> roundHalfEven z"
proof (cases "\<lfloor>y\<rfloor> = \<lfloor>z\<rfloor>")
  case True
  with assms show ?thesis by (simp add: roundHalfEven_def Let_def)
next
  case False
  with floor_mono [OF assms] have "\<lfloor>y\<rfloor> + 1 \<le> \<lfloor>z\<rfloor>" by simp
  moreover have "roundHalfEven y \<le> \<lfloor>y\<rfloor> + 1" by (simp add: roundHalfEven_def Let_def)
  moreover have "\<lfloor>z\<rfloor> \<le> roundHalfEven z" by (simp add: roundHalfEven_def Let_def)
  ultimately show ?thesis by simp
qed

lemma roundHalfEven_minus: "roundHalfEven (- y) = - roundHalfEven y"
proof (cases "y = of_int \<lfloor>y\<rfloor>")
  case True
  then obtain n where "y = of_int n" ..
  then have "- y = of_int (- n)" by simp
  then have "roundHalfEven (- y) = - n" by (simp only: roundHalfEven_of_int)
  with \<open>y = of_int n\<close> show ?thesis by simp
next
  case False
  then have f: "\<lfloor>- y\<rfloor> = - \<lfloor>y\<rfloor> - 1"
    by (simp add: floor_minus ceiling_altdef)
  have r: "- y - of_int \<lfloor>- y\<rfloor> = 1 - (y - of_int \<lfloor>y\<rfloor>)" by (simp add: f)
  show ?thesis
    unfolding roundHalfEven_def Let_def r unfolding f
    by (auto simp add: algebra_simps)
qed

lemma double_0 [simp]: "double 0 = 0"
  by (simp add: double_def)

lemma double_minus: "double (- x) = - double x"
  by (simp add: double_def Let_def roundHalfEven_minus)

text \<open>The scaled significand of a positive number lies in \<open>[2 ^ 52, 2 ^ 53)\<close>.\<close>

lemma significand_bounds:
  assumes "0 < x"
  shows "2 ^ 52 \<le> x * 2 powi (52 - binaryExponent x)"
    and "x * 2 powi (52 - binaryExponent x) < 2 ^ 53"
proof -
  from assms have x: "x \<noteq> 0" "\<bar>x\<bar> = x" by simp_all
  note b = binaryExponent_bounds [OF x(1), unfolded x(2)]
  have s: "0 < (2::real) powi (52 - binaryExponent x)" by simp
  have "(2::real) powi binaryExponent x * 2 powi (52 - binaryExponent x) = 2 powi 52"
    by (simp flip: power_int_add)
  then have l: "(2::real) powi binaryExponent x * 2 powi (52 - binaryExponent x) = 2 ^ 52"
    by simp
  have "(2::real) powi (binaryExponent x + 1) * 2 powi (52 - binaryExponent x) = 2 powi 53"
    by (simp flip: power_int_add)
  then have u: "(2::real) powi (binaryExponent x + 1) * 2 powi (52 - binaryExponent x) = 2 ^ 53"
    by simp
  from b(1) s have "2 powi binaryExponent x * 2 powi (52 - binaryExponent x)
                      \<le> x * 2 powi (52 - binaryExponent x)"
    by (simp only: mult_le_cancel_right_pos)
  then show "2 ^ 52 \<le> x * 2 powi (52 - binaryExponent x)" by (simp only: l)
  from b(2) s have "x * 2 powi (52 - binaryExponent x)
                      < 2 powi (binaryExponent x + 1) * 2 powi (52 - binaryExponent x)"
    by (simp only: mult_less_cancel_right_pos)
  then show "x * 2 powi (52 - binaryExponent x) < 2 ^ 53" by (simp only: u)
qed

lemma double_positive:
  "0 < x \<Longrightarrow>
   double x = of_int (roundHalfEven (x * 2 powi (52 - binaryExponent x)))
                * 2 powi (binaryExponent x - 52)"
  by (simp add: double_def Let_def)

lemma double_bounds:
  assumes "0 < x"
  shows "2 powi binaryExponent x \<le> double x" and "double x \<le> 2 powi (binaryExponent x + 1)"
proof -
  note s = significand_bounds [OF assms]
  note d = double_positive [OF assms]
  have "of_int (2 ^ 52) \<le> x * 2 powi (52 - binaryExponent x)" using s(1) by simp
  then have "2 ^ 52 \<le> roundHalfEven (x * 2 powi (52 - binaryExponent x))"
    by (rule roundHalfEven_ge)
  then have "real_of_int (2 ^ 52) \<le> of_int (roundHalfEven (x * 2 powi (52 - binaryExponent x)))"
    by (simp only: of_int_le_iff)
  then have "(2::real) ^ 52 \<le> of_int (roundHalfEven (x * 2 powi (52 - binaryExponent x)))"
    by simp
  then have a: "(2::real) ^ 52 * 2 powi (binaryExponent x - 52)
                \<le> of_int (roundHalfEven (x * 2 powi (52 - binaryExponent x)))
                    * 2 powi (binaryExponent x - 52)"
    by (simp only: mult_le_cancel_right_pos zero_less_power_int zero_less_numeral)
  have b: "(2::real) ^ 52 * 2 powi (binaryExponent x - 52) = 2 powi binaryExponent x"
  proof -
    have "(2::real) ^ 52 * 2 powi (binaryExponent x - 52)
            = 2 powi 52 * 2 powi (binaryExponent x - 52)" by simp
    also have "\<dots> = 2 powi (52 + (binaryExponent x - 52))" by (rule two_powi_mult)
    also have "52 + (binaryExponent x - 52) = binaryExponent x" by simp
    finally show ?thesis .
  qed
  from a show "2 powi binaryExponent x \<le> double x" by (simp only: b d)
  have "x * 2 powi (52 - binaryExponent x) \<le> of_int (2 ^ 53)" using s(2) by simp
  then have "roundHalfEven (x * 2 powi (52 - binaryExponent x)) \<le> 2 ^ 53"
    by (rule roundHalfEven_le)
  then have "of_int (roundHalfEven (x * 2 powi (52 - binaryExponent x))) \<le> real_of_int (2 ^ 53)"
    by (simp only: of_int_le_iff)
  then have "of_int (roundHalfEven (x * 2 powi (52 - binaryExponent x))) \<le> (2::real) ^ 53"
    by simp
  then have a': "of_int (roundHalfEven (x * 2 powi (52 - binaryExponent x)))
                    * 2 powi (binaryExponent x - 52)
               \<le> (2::real) ^ 53 * 2 powi (binaryExponent x - 52)"
    by (simp only: mult_le_cancel_right_pos zero_less_power_int zero_less_numeral)
  have b': "(2::real) ^ 53 * 2 powi (binaryExponent x - 52) = 2 powi (binaryExponent x + 1)"
  proof -
    have "(2::real) ^ 53 * 2 powi (binaryExponent x - 52)
            = 2 powi 53 * 2 powi (binaryExponent x - 52)" by simp
    also have "\<dots> = 2 powi (53 + (binaryExponent x - 52))" by (rule two_powi_mult)
    also have "53 + (binaryExponent x - 52) = binaryExponent x + 1" by simp
    finally show ?thesis .
  qed
  from a' show "double x \<le> 2 powi (binaryExponent x + 1)" by (simp only: b' d)
qed

lemma double_pos: "0 < x \<Longrightarrow> 0 < double x"
  using double_bounds(1) [of x] by (rule_tac less_le_trans [of _ "2 powi binaryExponent x"]) simp_all

lemma double_neg: "x < 0 \<Longrightarrow> double x < 0"
  using double_pos [of "- x"] by (simp add: double_minus)

lemma double_sign_cases:
  "(x < 0 \<and> double x < 0) \<or> (x = 0 \<and> double x = 0) \<or> (0 < x \<and> 0 < double x)"
proof (cases x "0::real" rule: linorder_cases)
  case less
  then show ?thesis by (simp add: double_neg)
next
  case equal
  then show ?thesis by simp
next
  case greater
  then show ?thesis by (simp add: double_pos)
qed

lemma double_pos_iff: "0 < double x \<longleftrightarrow> 0 < x"
  using double_sign_cases [of x] by auto

lemma double_neg_iff: "double x < 0 \<longleftrightarrow> x < 0"
  using double_sign_cases [of x] by auto

lemma double_nonneg_iff: "0 \<le> double x \<longleftrightarrow> 0 \<le> x"
  using double_sign_cases [of x] by auto

lemma double_nonpos_iff: "double x \<le> 0 \<longleftrightarrow> x \<le> 0"
  using double_sign_cases [of x] by auto

lemma double_eq_0_iff: "double x = 0 \<longleftrightarrow> x = 0"
  using double_sign_cases [of x] by auto

lemma double_mono_pos:
  assumes "0 < x" and "x \<le> y"
  shows "double x \<le> double y"
proof -
  from assms have y: "0 < y" by simp
  from assms have nz: "x \<noteq> 0" "y \<noteq> 0" "\<bar>x\<bar> = x" "\<bar>y\<bar> = y" by simp_all
  note bx = binaryExponent_bounds [OF nz(1), unfolded nz(3)]
  note by' = binaryExponent_bounds [OF nz(2), unfolded nz(4)]
  from bx(1) assms(2) by'(2) have "(2::real) powi binaryExponent x < 2 powi (binaryExponent y + 1)"
    by simp
  then have "binaryExponent x < binaryExponent y + 1" by (rule power_int_two_less_imp)
  then consider "binaryExponent x = binaryExponent y" | "binaryExponent x + 1 \<le> binaryExponent y"
    by linarith
  then show ?thesis
  proof cases
    case 1
    have "x * 2 powi (52 - binaryExponent y) \<le> y * 2 powi (52 - binaryExponent y)"
      using assms(2) by (simp only: mult_le_cancel_right_pos zero_less_power_int zero_less_numeral)
    then have "roundHalfEven (x * 2 powi (52 - binaryExponent y))
                 \<le> roundHalfEven (y * 2 powi (52 - binaryExponent y))"
      by (rule roundHalfEven_mono)
    then have "real_of_int (roundHalfEven (x * 2 powi (52 - binaryExponent y)))
                 \<le> of_int (roundHalfEven (y * 2 powi (52 - binaryExponent y)))"
      by (simp only: of_int_le_iff)
    then have "of_int (roundHalfEven (x * 2 powi (52 - binaryExponent y)))
                   * 2 powi (binaryExponent y - 52)
                 \<le> of_int (roundHalfEven (y * 2 powi (52 - binaryExponent y)))
                     * (2::real) powi (binaryExponent y - 52)"
      by (simp only: mult_le_cancel_right_pos zero_less_power_int zero_less_numeral)
    then show ?thesis
      by (simp only: double_positive [OF assms(1)] double_positive [OF y] 1)
  next
    case 2
    then have "(2::real) powi (binaryExponent x + 1) \<le> 2 powi binaryExponent y"
      by (intro power_int_increasing) simp_all
    with double_bounds(2) [OF assms(1)] double_bounds(1) [OF y] show ?thesis by linarith
  qed
qed

lemma double_mono:
  assumes "x \<le> y"
  shows "double x \<le> double y"
proof -
  consider "0 < x" | "x \<le> 0" "0 \<le> y" | "y < 0" by linarith
  then show ?thesis
  proof cases
    case 1
    then show ?thesis using assms by (rule double_mono_pos)
  next
    case 2
    then have "double x \<le> 0" and "0 \<le> double y"
      using double_sign_cases [of x] double_sign_cases [of y] by auto
    then show ?thesis by simp
  next
    case 3
    with assms have "0 < - y" and "- y \<le> - x" by simp_all
    then have "double (- y) \<le> double (- x)" by (rule double_mono_pos)
    then show ?thesis by (simp add: double_minus)
  qed
qed

text \<open>A number whose scaled significand is an integer is a double.\<close>

lemma double_exact:
  assumes "0 < x" and "x * 2 powi (52 - binaryExponent x) = of_int m"
  shows "double x = x"
proof -
  have "double x = x * 2 powi (52 - binaryExponent x) * 2 powi (binaryExponent x - 52)"
    by (simp only: double_positive [OF assms(1)] assms(2) roundHalfEven_of_int)
  also have "\<dots> = x * (2 powi (52 - binaryExponent x) * 2 powi (binaryExponent x - 52))"
    by (simp only: mult.assoc)
  also have "2 powi (52 - binaryExponent x) * 2 powi (binaryExponent x - 52) = (2::real) powi 0"
    by (simp only: two_powi_mult) simp
  finally show ?thesis by simp
qed

text \<open>The rounding error is at most half a unit in the last place.\<close>

lemma double_error: "\<bar>double x - x\<bar> \<le> \<bar>x\<bar> / 2 ^ 53"
proof -
  have pos: "\<bar>double x - x\<bar> \<le> x / 2 ^ 53" if x: "0 < x" for x
  proof -
    define e where "e = binaryExponent x"
    define P :: real where "P = 2 powi (52 - e)"
    define Q :: real where "Q = 2 powi (e - 52)"
    have PQ: "P * Q = 1"
    proof -
      have "P * Q = 2 powi (52 - e + (e - 52))" unfolding P_def Q_def by (rule two_powi_mult)
      then show ?thesis by simp
    qed
    have Q: "0 < Q" by (simp add: Q_def)
    have d: "double x = of_int (roundHalfEven (x * P)) * Q"
      using double_positive [OF x] by (simp only: e_def P_def Q_def)
    have "x = x * (P * Q)" by (simp only: PQ mult_1_right)
    then have xe: "x = (x * P) * Q" by (simp only: mult.assoc)
    have "double x - x = (of_int (roundHalfEven (x * P)) - x * P) * Q"
      by (subst (2) xe) (simp only: d left_diff_distrib)
    then have "\<bar>double x - x\<bar> = \<bar>of_int (roundHalfEven (x * P)) - x * P\<bar> * Q"
      using Q by (simp only: abs_mult abs_of_pos)
    also have "\<dots> \<le> (1 / 2) * Q"
      using roundHalfEven_error [of "x * P"] Q by (simp only: mult_le_cancel_right_pos)
    also have "(1 / 2) * Q \<le> x / 2 ^ 53"
    proof -
      from x have nz: "x \<noteq> 0" "\<bar>x\<bar> = x" by simp_all
      from binaryExponent_bounds(1) [OF nz(1)] have "2 powi e \<le> x" by (simp only: nz(2) e_def)
      moreover have "Q * 2 ^ 52 = 2 powi e"
      proof -
        have "Q * 2 ^ 52 = 2 powi (e - 52) * 2 powi 52" by (simp add: Q_def)
        also have "\<dots> = 2 powi (e - 52 + 52)" by (rule two_powi_mult)
        finally show ?thesis by simp
      qed
      ultimately have "Q * 2 ^ 52 \<le> x" by (simp only:)
      then show ?thesis by (simp add: field_simps)
    qed
    finally show ?thesis .
  qed
  consider "0 < x" | "x = 0" | "0 < - x" by linarith
  then show ?thesis
  proof cases
    case 1
    then show ?thesis using pos [of x] by simp
  next
    case 2
    then show ?thesis by simp
  next
    case 3
    then show ?thesis using pos [of "- x"] by (simp add: double_minus)
  qed
qed

declare double_pos_iff [simp] double_neg_iff [simp] double_nonneg_iff [simp]
  double_nonpos_iff [simp] double_eq_0_iff [simp]

section \<open>Evaluation of the rounding on literals\<close>

lemmas double_literal =
  double_def [of "numeral a" for a] double_def [of "numeral a / numeral b" for a b]
  double_def [of "1 / numeral b" for b] double_def [of 1]

lemmas binaryExponent_literal =
  binaryExponent_def [of "numeral a" for a] binaryExponent_def [of "numeral a / numeral b" for a b]
  binaryExponent_def [of "1 / numeral b" for b] binaryExponent_def [of 1]

lemmas halvings_literal =
  halvings.simps [of "numeral a" for a] halvings.simps [of "numeral a / numeral b" for a b]
  halvings.simps [of "1 / numeral b" for b] halvings.simps [of 1]

lemmas doublings_literal =
  doublings.simps [of "numeral a" for a] doublings.simps [of "numeral a / numeral b" for a b]
  doublings.simps [of "1 / numeral b" for b] doublings.simps [of 1]

lemmas double_evals = double_literal binaryExponent_literal halvings_literal doublings_literal
  roundHalfEven_def double_minus numAdd_def numMul_def numDiv_def Let_def

section \<open>Basic facts\<close>

lemma toLowerChar_Char:
  "toLowerChar (Char b0 b1 b2 b3 b4 b5 b6 b7) =
     (if (\<not> b7 \<and> b6 \<and> \<not> b5 \<and> (b0 \<or> b1 \<or> b2 \<or> b3 \<or> b4)
            \<and> \<not> (b4 \<and> b3 \<and> (b2 \<or> (b1 \<and> b0))))
         \<or> (b7 \<and> b6 \<and> \<not> b5 \<and> \<not> (b4 \<and> b3 \<and> b2 \<and> b1 \<and> b0)
            \<and> \<not> (b4 \<and> \<not> b3 \<and> b2 \<and> b1 \<and> b0))
      then Char b0 b1 b2 b3 b4 True b6 b7 else Char b0 b1 b2 b3 b4 b5 b6 b7)"
  by (cases b0; cases b1; cases b2; cases b3; cases b4; cases b5; cases b6; cases b7;
      simp add: toLowerChar_def char_of_def bit_0)

lemma length_slice0: "0 \<le> m \<Longrightarrow> length (slice0 m xs) \<le> nat m"
  by (simp add: slice0_def)

lemma length_topResults: "0 \<le> m \<Longrightarrow> length (topResults m rs) \<le> nat m"
  by (simp add: topResults_def length_slice0)

lemma length_searchDocumentsBasic: "0 \<le> m \<Longrightarrow> length (searchDocumentsBasic q docs m) \<le> nat m"
  by (simp add: searchDocumentsBasic_def Let_def length_topResults)

lemma length_searchDocuments: "0 \<le> m \<Longrightarrow> length (searchDocuments q docs m c) \<le> nat m"
  by (simp add: searchDocuments_def length_topResults length_searchDocumentsBasic
      split: option.split sum.split)

lemma POST_too_short:
  "length (trim (query r)) < 2 \<Longrightarrow>
   POST now dir c r = (errorResponse 400 ''Query must be at least 2 characters long'', c)"
  by (simp add: POST_def Let_def)

lemma POST_too_long:
  "500 < length (trim (query r)) \<Longrightarrow>
   POST now dir c r = (errorResponse 400 ''Query is too long (max 500 characters)'', c)"
  by (auto simp add: POST_def Let_def)

lemma POST_valid:
  assumes "2 \<le> length (trim (query r))" and "length (trim (query r)) \<le> 500"
  shows "POST now dir c r =
           (case loadKnowledgeBaseDocuments now dir c of
              (docs, cache) \<Rightarrow>
                if docs = [] then
                  (errorResponse 503 ''No documents available in knowledge base'', cache)
                else
                  (\<lparr>status = 200,
                    results = map trimContent
                                (searchDocuments (trim (query r)) docs
                                   (effectiveMaxResults (maxResults r)) cache),
                    total_documents = length docs, success = True,
                    error_message = None\<rparr>, cache))"
proof -
  from assms have "trim (query r) \<noteq> []" by auto
  with assms show ?thesis by (simp add: POST_def Let_def)
qed

lemma length_results_POST:
  "0 \<le> effectiveMaxResults (maxResults r) \<Longrightarrow>
   length (results (fst (POST now dir c r))) \<le> nat (effectiveMaxResults (maxResults r))"
  by (simp add: POST_def Let_def errorResponse_def length_searchDocuments split: prod.split)

section \<open>The index builder establishes its invariants\<close>


lemma getProperty_Own_iff: "getProperty obj k = Own v \<longleftrightarrow> map_of obj k = Some v"
  by (simp add: getProperty_def split: option.split)

lemma getProperty_Inherited_iff:
  "getProperty obj k = Inherited \<longleftrightarrow> map_of obj k = None \<and> k \<in> set objectPrototypeNames"
  by (simp add: getProperty_def split: option.split)

lemma getProperty_Undefined_iff:
  "getProperty obj k = Undefined \<longleftrightarrow> map_of obj k = None \<and> k \<notin> set objectPrototypeNames"
  by (simp add: getProperty_def split: option.split)

lemma map_of_Some_key: "map_of al k = Some v \<Longrightarrow> k \<in> fst ` set al"
  by (force dest: map_of_SomeD)

lemma map_of_append_new:
  "map_of al k = None \<Longrightarrow> map_of (al @ [(k, v)]) = (map_of al)(k \<mapsto> v)"
  by (auto simp add: map_add_def fun_eq_iff split: option.split)

lemma set_update_subset: "set (AList.update k v al) \<subseteq> insert (k, v) (set al)"
  by (induction al) auto

lemma set_setAdd [simp]: "set (setAdd xs x) = insert x (set xs)"
  by (auto simp add: setAdd_def)

lemma distinct_setAdd [simp]: "distinct (setAdd xs x) = distinct xs"
  by (auto simp add: setAdd_def)

lemma indexWord_Inr:
  assumes "indexWord docId w (tf, vocab, inverted) = Inr (tf', vocab', inverted')"
  shows "tf' = AList.update w (case map_of tf w of Some n \<Rightarrow> n + 1 | None \<Rightarrow> 1) tf"
    and "vocab' = setAdd vocab w"
    and "fst ` set inverted' = insert w (fst ` set inverted)"
    and "postings inverted' = (postings inverted)(w := insert docId (postings inverted w))"
    and "wfInverted inverted \<Longrightarrow> wfInverted inverted'"
proof -
  show "tf' = AList.update w (case map_of tf w of Some n \<Rightarrow> n + 1 | None \<Rightarrow> 1) tf"
    using assms by (auto simp add: indexWord_def Let_def split: property.splits)
  show "vocab' = setAdd vocab w"
    using assms by (auto simp add: indexWord_def Let_def split: property.splits)
  show "fst ` set inverted' = insert w (fst ` set inverted)"
  proof (cases "getProperty inverted w")
    case (Own e)
    then have "w \<in> fst ` set inverted"
      by (simp add: getProperty_Own_iff map_of_Some_key)
    moreover from Own assms have "inverted' = AList.update w
        (e\<lparr>documents := setAdd (documents e) docId, frequency := frequency e + 1\<rparr>) inverted"
      by (simp add: indexWord_def Let_def)
    then have "fst ` set inverted' = {w} \<union> fst ` set inverted"
      by (simp only: dom_update)
    ultimately show ?thesis by auto
  next
    case Inherited
    with assms show ?thesis by (simp add: indexWord_def Let_def)
  next
    case Undefined
    with assms show ?thesis by (auto simp add: indexWord_def Let_def)
  qed
  show "postings inverted' = (postings inverted)(w := insert docId (postings inverted w))"
    using assms
    by (auto simp add: indexWord_def Let_def postings_def fun_eq_iff update_conv'
        getProperty_Own_iff getProperty_Undefined_iff map_of_append_new
        split: property.splits option.splits)
  show "wfInverted inverted'" if wf: "wfInverted inverted"
  proof (cases "getProperty inverted w")
    case (Own e)
    then have m: "map_of inverted w = Some e" by (simp add: getProperty_Own_iff)
    from m wf have de: "distinct (documents e)"
      by (force simp add: wfInverted_def dest: map_of_SomeD)
    from Own assms have inv': "inverted' = AList.update w
        (e\<lparr>documents := setAdd (documents e) docId, frequency := frequency e + 1\<rparr>) inverted"
      by (simp add: indexWord_def Let_def)
    have "\<forall>p \<in> set inverted'. distinct (documents (snd p))"
      using set_update_subset [of w _ inverted] wf de unfolding inv' wfInverted_def by fastforce
    moreover have "fst ` set inverted' = fst ` set inverted"
      using map_of_Some_key [OF m] by (auto simp add: inv' dom_update)
    ultimately show ?thesis
      using wf by (simp add: wfInverted_def inv' distinct_update)
  next
    case Inherited
    with assms show ?thesis by (simp add: indexWord_def Let_def)
  next
    case Undefined
    then have m: "map_of inverted w = None" "w \<notin> set objectPrototypeNames"
      by (simp_all add: getProperty_Undefined_iff)
    from Undefined assms have inv': "inverted' =
        inverted @ [(w, \<lparr>documents = [docId], frequency = 1, idf = 0\<rparr>)]"
      by (simp add: indexWord_def Let_def)
    from m(1) have "w \<notin> fst ` set inverted" by (simp add: map_of_eq_None_iff)
    with wf m(2) show ?thesis
      by (auto simp add: wfInverted_def inv')
  qed
qed

lemma indexWord_total:
  "w \<notin> set objectPrototypeNames \<Longrightarrow> \<exists>r. indexWord docId w st = Inr r"
proof -
  obtain tf rest where "st = (tf, rest)" by (cases st)
  moreover obtain vocab inverted where "rest = (vocab, inverted)" by (cases rest)
  moreover assume "w \<notin> set objectPrototypeNames"
  ultimately show ?thesis
    by (auto simp add: indexWord_def Let_def getProperty_def split: option.split)
qed

lemma indexWord_Inr_noproto:
  assumes "indexWord docId w (tf, vocab, inverted) = Inr r" and "wfInverted inverted"
  shows "w \<notin> set objectPrototypeNames"
proof (cases "map_of inverted w")
  case None
  with assms(1) show ?thesis
    by (auto simp add: indexWord_def Let_def getProperty_def split: if_splits)
next
  case (Some e)
  then have "w \<in> fst ` set inverted" by (rule map_of_Some_key)
  with assms(2) show ?thesis by (auto simp add: wfInverted_def)
qed

lemma foldE_indexWord:
  assumes "foldE (indexWord docId) ws (tf, vocab, inverted) = Inr (tf', vocab', inverted')"
  shows "fst ` set inverted' = fst ` set inverted \<union> set ws
       \<and> set vocab' = set vocab \<union> set ws
       \<and> (distinct vocab \<longrightarrow> distinct vocab')
       \<and> (\<forall>t. postings inverted' t = postings inverted t \<union> (if t \<in> set ws then {docId} else {}))
       \<and> (wfInverted inverted \<longrightarrow> wfInverted inverted')
       \<and> fst ` set tf' = fst ` set tf \<union> set ws
       \<and> (distinct (map fst tf) \<longrightarrow> distinct (map fst tf'))"
  using assms
proof (induction ws arbitrary: tf vocab inverted)
  case Nil
  then show ?case by simp
next
  case (Cons w ws)
  from Cons.prems obtain tf1 vocab1 inv1 where
    step: "indexWord docId w (tf, vocab, inverted) = Inr (tf1, vocab1, inv1)"
    and rest: "foldE (indexWord docId) ws (tf1, vocab1, inv1) = Inr (tf', vocab', inverted')"
    by (auto split: sum.splits)
  note s = indexWord_Inr [OF step]
  note ih = Cons.IH [OF rest]
  have "fst ` set tf1 = insert w (fst ` set tf)" by (simp add: s(1) dom_update)
  moreover have "distinct (map fst tf) \<longrightarrow> distinct (map fst tf1)"
    by (simp add: s(1) distinct_update)
  ultimately show ?case
    using ih s(3,5) by (auto simp add: s(2) s(4))
qed

lemma foldE_indexWord_total:
  "set ws \<inter> set objectPrototypeNames = {} \<Longrightarrow> \<exists>r. foldE (indexWord docId) ws st = Inr r"
proof (induction ws arbitrary: st)
  case Nil
  show ?case by (rule exI [of _ st]) simp
next
  case (Cons w ws)
  then obtain r where "indexWord docId w st = Inr r"
    using indexWord_total [of w docId st] by auto
  with Cons show ?case by auto
qed

lemma foldE_indexWord_noproto:
  assumes "foldE (indexWord docId) ws (tf, vocab, inverted) = Inr r" and "wfInverted inverted"
  shows "set ws \<inter> set objectPrototypeNames = {}"
proof -
  obtain tf' vocab' inverted' where r: "r = (tf', vocab', inverted')" by (cases r)
  from foldE_indexWord [OF assms(1) [unfolded r]] assms(2)
  have "wfInverted inverted'" and "set ws \<subseteq> fst ` set inverted'" by auto
  then show ?thesis by (auto simp add: wfInverted_def)
qed

lemma buildInv_init:
  "buildInv [] \<lparr>bs_inverted = [], bs_documents = \<lparr>entries = [], prototype = None\<rparr>,
                bs_vocabulary = [], bs_totalLength = 0\<rparr>"
  by (simp add: buildInv_def wfInverted_def postings_def)

lemma entryOf_mono: "entryOf ds k e \<Longrightarrow> set ds \<subseteq> set ds' \<Longrightarrow> entryOf ds' k e"
  by (auto simp add: entryOf_def)

lemma indexDocument_Inr:
  assumes step: "indexDocument d st = Inr st'" and inv: "buildInv ds st"
  shows "buildInv (ds @ [d]) st'"
proof -
  from step obtain tf vocab inverted where
    fold: "foldE (indexWord (doc_id d)) (documentTokens d) ([], bs_vocabulary st, bs_inverted st)
             = Inr (tf, vocab, inverted)"
    and st': "st' = \<lparr>bs_inverted = inverted,
                  bs_documents =
                    setDocumentEntry (doc_id d)
                      \<lparr>document = d, termFrequency = tf, tfidfVector = [],
                       doc_length = length (documentTokens d),
                       topics = extractTopicsFromFilename (source d),
                       embeddings = createSimpleEmbeddings (documentTokens d) vocab\<rparr>
                      (bs_documents st),
                  bs_vocabulary = vocab,
                  bs_totalLength = bs_totalLength st + length (documentTokens d)\<rparr>"
    by (auto simp add: indexDocument_def Let_def split: sum.splits)
  define e where "e = \<lparr>document = d, termFrequency = tf, tfidfVector = [],
                       doc_length = length (documentTokens d),
                       topics = extractTopicsFromFilename (source d),
                       embeddings = createSimpleEmbeddings (documentTokens d) vocab\<rparr>"
  have docs': "bs_documents st' = setDocumentEntry (doc_id d) e (bs_documents st)"
    by (simp add: st' e_def)
  note f = foldE_indexWord [OF fold]
  from inv have wf: "wfInverted (bs_inverted st)" and dv: "distinct (bs_vocabulary st)"
    by (simp_all add: buildInv_def)
  have en: "entryOf (ds @ [d]) (doc_id d) e" and ev: "tfidfVector e = []"
    using f by (simp_all add: entryOf_def e_def)
  have old: "entryOf (ds @ [d]) k x" if "entryOf ds k x" for k x
    using that by (rule entryOf_mono) auto
  have 1: "wfInverted (bs_inverted st')" using f wf by (simp add: st')
  have 2: "fst ` set (bs_inverted st') = (\<Union>x \<in> set (ds @ [d]). set (documentTokens x))"
    using f inv by (auto simp add: buildInv_def st')
  have 3: "set (bs_vocabulary st') = (\<Union>x \<in> set (ds @ [d]). set (documentTokens x))"
    using f inv by (auto simp add: buildInv_def st')
  have 4: "distinct (bs_vocabulary st')" using f dv by (simp add: st')
  have 5: "\<forall>t. postings (bs_inverted st') t
              = doc_id ` {x \<in> set (ds @ [d]). t \<in> set (documentTokens x)}"
  proof
    fix t
    have "postings inverted t
            = postings (bs_inverted st) t \<union> (if t \<in> set (documentTokens d) then {doc_id d} else {})"
      using f by simp
    also have "postings (bs_inverted st) t = doc_id ` {x \<in> set ds. t \<in> set (documentTokens x)}"
      using inv by (simp add: buildInv_def)
    finally show "postings (bs_inverted st') t
              = doc_id ` {x \<in> set (ds @ [d]). t \<in> set (documentTokens x)}"
      by (auto simp add: st')
  qed
  from inv have i6: "distinct (map fst (entries (bs_documents st)))"
    and i7: "fst ` set (entries (bs_documents st)) = doc_id ` set ds - {''__proto__''}"
    and i8: "\<forall>p \<in> set (entries (bs_documents st)). entryOf ds (fst p) (snd p)"
    and i9: "prototype (bs_documents st) = None \<longleftrightarrow> ''__proto__'' \<notin> doc_id ` set ds"
    and i10: "\<forall>x. prototype (bs_documents st) = Some x \<longrightarrow>
                entryOf ds ''__proto__'' x \<and> tfidfVector x = []"
    by (simp_all add: buildInv_def)
  have 6: "distinct (map fst (entries (bs_documents st')))"
    using i6 by (simp add: docs' setDocumentEntry_def distinct_update)
  have 7: "fst ` set (entries (bs_documents st')) = doc_id ` set (ds @ [d]) - {''__proto__''}"
    using i7 by (auto simp add: docs' setDocumentEntry_def dom_update)
  have 8: "\<forall>p \<in> set (entries (bs_documents st')). entryOf (ds @ [d]) (fst p) (snd p)"
  proof
    fix p
    assume p: "p \<in> set (entries (bs_documents st'))"
    show "entryOf (ds @ [d]) (fst p) (snd p)"
    proof (cases "doc_id d = ''__proto__''")
      case True
      with p have "p \<in> set (entries (bs_documents st))"
        by (simp add: docs' setDocumentEntry_def)
      with i8 show ?thesis by (simp add: old)
    next
      case False
      with p have "p \<in> set (AList.update (doc_id d) e (entries (bs_documents st)))"
        by (simp add: docs' setDocumentEntry_def)
      with set_update_subset [of "doc_id d" e "entries (bs_documents st)"]
      have "p = (doc_id d, e) \<or> p \<in> set (entries (bs_documents st))" by auto
      then show ?thesis
      proof
        assume "p = (doc_id d, e)"
        with en show ?thesis by simp
      next
        assume "p \<in> set (entries (bs_documents st))"
        with i8 show ?thesis by (simp add: old)
      qed
    qed
  qed
  have 9: "prototype (bs_documents st') = None \<longleftrightarrow> ''__proto__'' \<notin> doc_id ` set (ds @ [d])"
    using i9 by (auto simp add: docs' setDocumentEntry_def)
  have 10: "\<forall>x. prototype (bs_documents st') = Some x \<longrightarrow>
              entryOf (ds @ [d]) ''__proto__'' x \<and> tfidfVector x = []"
  proof (intro allI impI)
    fix x
    assume x: "prototype (bs_documents st') = Some x"
    show "entryOf (ds @ [d]) ''__proto__'' x \<and> tfidfVector x = []"
    proof (cases "doc_id d = ''__proto__''")
      case True
      with x have "x = e" by (simp add: docs' setDocumentEntry_def)
      with en ev True show ?thesis by simp
    next
      case False
      with x have "prototype (bs_documents st) = Some x"
        by (simp add: docs' setDocumentEntry_def)
      with i10 show ?thesis by (simp add: old)
    qed
  qed
  show ?thesis
    unfolding buildInv_def by (intro conjI 1 2 3 4 5 6 7 8 9 10)
qed

lemma foldE_indexDocument:
  "foldE indexDocument ds st = Inr st' \<Longrightarrow> buildInv ds0 st \<Longrightarrow> buildInv (ds0 @ ds) st'"
proof (induction ds arbitrary: st ds0)
  case Nil
  then show ?case by simp
next
  case (Cons d ds)
  from Cons.prems(1) obtain st1 where
    step: "indexDocument d st = Inr st1" and rest: "foldE indexDocument ds st1 = Inr st'"
    by (auto split: sum.splits)
  from Cons.IH [OF rest indexDocument_Inr [OF step Cons.prems(2)]]
  show ?case by simp
qed

lemma indexDocument_Inr_noproto:
  assumes "indexDocument d st = Inr st'" and "buildInv ds st"
  shows "set (documentTokens d) \<inter> set objectPrototypeNames = {}"
proof -
  from assms(1) obtain r where
    "foldE (indexWord (doc_id d)) (documentTokens d) ([], bs_vocabulary st, bs_inverted st) = Inr r"
    by (auto simp add: indexDocument_def Let_def split: sum.splits)
  moreover from assms(2) have "wfInverted (bs_inverted st)" by (simp add: buildInv_def)
  ultimately show ?thesis by (rule foldE_indexWord_noproto)
qed

lemma indexDocument_total:
  assumes "set (documentTokens d) \<inter> set objectPrototypeNames = {}"
  shows "\<exists>st'. indexDocument d st = Inr st'"
proof -
  from foldE_indexWord_total [OF assms] obtain r where
    "foldE (indexWord (doc_id d)) (documentTokens d) ([], bs_vocabulary st, bs_inverted st) = Inr r"
    by blast
  then show ?thesis
    by (cases r rule: prod_cases3) (simp add: indexDocument_def Let_def)
qed

lemma foldE_indexDocument_iff:
  assumes "buildInv ds0 st"
  shows "(\<exists>st'. foldE indexDocument ds st = Inr st')
           \<longleftrightarrow> (\<forall>d \<in> set ds. set (documentTokens d) \<inter> set objectPrototypeNames = {})"
  using assms
proof (induction ds arbitrary: st ds0)
  case Nil
  then show ?case by simp
next
  case (Cons d ds)
  show ?case
  proof (cases "indexDocument d st")
    case (Inl e)
    with indexDocument_total [of d st] show ?thesis by auto
  next
    case (Inr st1)
    from indexDocument_Inr_noproto [OF Inr Cons.prems]
    have np: "set (documentTokens d) \<inter> set objectPrototypeNames = {}" .
    from Cons.IH [OF indexDocument_Inr [OF Inr Cons.prems]] np Inr
    show ?thesis by simp
  qed
qed

lemma key_map_of: "k \<in> fst ` set al \<Longrightarrow> \<exists>v. map_of al k = Some v"
  by (cases "map_of al k") (auto simp add: map_of_eq_None_iff)

lemma map_fst_update_present:
  "k \<in> fst ` set al \<Longrightarrow> map fst (AList.update k v al) = map fst al"
  by (simp add: update_keys)

lemma same_keys: "map fst a = map fst b \<Longrightarrow> fst ` set a = fst ` set b"
proof -
  assume "map fst a = map fst b"
  then have "set (map fst a) = set (map fst b)" by (rule arg_cong)
  then show ?thesis by (simp only: set_map)
qed

lemma setIdf_Inr:
  assumes "map_of inverted v = Some e"
  shows "setIdf n v inverted =
           Inr (AList.update v
                  (e\<lparr>idf := mathLog (numDiv (real n) (real (1 + length (documents e))))\<rparr>)
                  inverted)"
  using assms by (simp add: setIdf_def getProperty_def)

lemma foldE_setIdf:
  assumes "set vs \<subseteq> fst ` set inverted"
  shows "\<exists>inverted'. foldE (setIdf n) vs inverted = Inr inverted'
      \<and> map fst inverted' = map fst inverted
      \<and> (\<forall>t. map_of inverted' t =
              map_option (\<lambda>e. if t \<in> set vs
                               then e\<lparr>idf := mathLog (numDiv (real n)
                                                       (real (1 + length (documents e))))\<rparr>
                               else e) (map_of inverted t))"
  using assms
proof (induction vs arbitrary: inverted)
  case Nil
  show ?case by (rule exI [of _ inverted]) (simp add: option.map_ident)
next
  case (Cons v vs)
  then have "v \<in> fst ` set inverted" by simp
  from key_map_of [OF this] obtain e where e: "map_of inverted v = Some e" ..
  define inv1 where
    "inv1 = AList.update v
              (e\<lparr>idf := mathLog (numDiv (real n) (real (1 + length (documents e))))\<rparr>) inverted"
  have step: "setIdf n v inverted = Inr inv1"
    using setIdf_Inr [OF e] by (simp add: inv1_def)
  have keys1: "map fst inv1 = map fst inverted"
    using \<open>v \<in> fst ` set inverted\<close> by (simp add: inv1_def map_fst_update_present)
  then have "fst ` set inv1 = fst ` set inverted" by (rule same_keys)
  with Cons.prems have "set vs \<subseteq> fst ` set inv1" by simp
  from Cons.IH [OF this] obtain inverted' where
    r: "foldE (setIdf n) vs inv1 = Inr inverted'"
    and k: "map fst inverted' = map fst inv1"
    and m: "\<And>t. map_of inverted' t =
              map_option (\<lambda>e. if t \<in> set vs
                               then e\<lparr>idf := mathLog (numDiv (real n)
                                                       (real (1 + length (documents e))))\<rparr>
                               else e) (map_of inv1 t)"
    by blast
  have m1: "map_of inv1 =
      (map_of inverted)(v \<mapsto> e\<lparr>idf := mathLog (numDiv (real n)
                                               (real (1 + length (documents e))))\<rparr>)"
    by (simp add: inv1_def update_conv')
  have m2: "map_of inverted' t =
              map_option (\<lambda>e. if t \<in> set (v # vs)
                               then e\<lparr>idf := mathLog (numDiv (real n)
                                                       (real (1 + length (documents e))))\<rparr>
                               else e) (map_of inverted t)" for t
  proof (cases "t = v")
    case True
    then show ?thesis using e by (simp add: m m1)
  next
    case False
    then show ?thesis by (simp add: m m1)
  qed
  have "foldE (setIdf n) (v # vs) inverted = Inr inverted'" using step r by simp
  moreover have "map fst inverted' = map fst inverted" using k keys1 by simp
  ultimately show ?case using m2 by blast
qed

lemma tfidfTerms_Inr:
  assumes "fst ` set tfs \<subseteq> fst ` set inverted"
  shows "tfidfTerms inverted len tfs =
           Inr (map (\<lambda>p. (fst p, numMul (numDiv (real (snd p)) (real len))
                                    (idf (the (map_of inverted (fst p)))))) tfs)"
  using assms
proof (induction tfs)
  case Nil
  then show ?case by simp
next
  case (Cons p tfs)
  obtain t tf where p: "p = (t, tf)" by (cases p)
  with Cons.prems have "t \<in> fst ` set inverted" by simp
  from key_map_of [OF this] obtain e where "map_of inverted t = Some e" ..
  with Cons show ?case by (simp add: p getProperty_def)
qed

lemma tfidfEntries_Inr:
  assumes "\<forall>p \<in> set es. fst ` set (termFrequency (snd p)) \<subseteq> fst ` set inverted"
  shows "tfidfEntries inverted es =
           Inr (map (\<lambda>p. (fst p, (snd p)\<lparr>tfidfVector :=
                       map (\<lambda>q. (fst q, numMul (numDiv (real (snd q)) (real (doc_length (snd p))))
                                            (idf (the (map_of inverted (fst q))))))
                         (termFrequency (snd p))\<rparr>)) es)"
  using assms
proof (induction es)
  case Nil
  then show ?case by simp
next
  case (Cons p es)
  obtain k e where p: "p = (k, e)" by (cases p)
  with Cons.prems have "fst ` set (termFrequency e) \<subseteq> fst ` set inverted" by simp
  from tfidfTerms_Inr [OF this] Cons show ?case by (simp add: p)
qed

lemma build_Inr:
  assumes "buildKnowledgeBaseIndex docs now = Inr index"
  shows "builtIndex docs index" and "lastIndexed index = now"
proof -
  let ?st0 = "\<lparr>bs_inverted = [], bs_documents = \<lparr>entries = [], prototype = None\<rparr>,
               bs_vocabulary = [], bs_totalLength = 0\<rparr>"
  from assms obtain st where st: "foldE indexDocument docs ?st0 = Inr st"
    by (auto simp add: buildKnowledgeBaseIndex_def split: sum.splits)
  from foldE_indexDocument [OF st buildInv_init] have inv: "buildInv docs st" by simp
  from inv have i1: "wfInverted (bs_inverted st)"
    and i2: "fst ` set (bs_inverted st) = (\<Union>d \<in> set docs. set (documentTokens d))"
    and i3: "set (bs_vocabulary st) = (\<Union>d \<in> set docs. set (documentTokens d))"
    and i4: "distinct (bs_vocabulary st)"
    and i5: "\<forall>t. postings (bs_inverted st) t
                = doc_id ` {d \<in> set docs. t \<in> set (documentTokens d)}"
    and i6: "distinct (map fst (entries (bs_documents st)))"
    and i7: "fst ` set (entries (bs_documents st)) = doc_id ` set docs - {''__proto__''}"
    and i8: "\<forall>p \<in> set (entries (bs_documents st)). entryOf docs (fst p) (snd p)"
    and i9: "prototype (bs_documents st) = None \<longleftrightarrow> ''__proto__'' \<notin> doc_id ` set docs"
    and i10: "\<forall>x. prototype (bs_documents st) = Some x \<longrightarrow>
                entryOf docs ''__proto__'' x \<and> tfidfVector x = []"
    by (simp_all add: buildInv_def)
  from i2 i3 have sub: "set (bs_vocabulary st) \<subseteq> fst ` set (bs_inverted st)" by simp
  from foldE_setIdf [OF sub, of "length docs"] obtain inverted' where
    r: "foldE (setIdf (length docs)) (bs_vocabulary st) (bs_inverted st) = Inr inverted'"
    and k: "map fst inverted' = map fst (bs_inverted st)"
    and m: "\<And>t. map_of inverted' t =
              map_option (\<lambda>e. if t \<in> set (bs_vocabulary st)
                               then e\<lparr>idf := mathLog (numDiv (real (length docs))
                                                       (real (1 + length (documents e))))\<rparr>
                               else e) (map_of (bs_inverted st) t)"
    by blast
  from k have keys: "fst ` set inverted' = fst ` set (bs_inverted st)" by (rule same_keys)
  have ent: "\<forall>p \<in> set (entries (bs_documents st)).
               fst ` set (termFrequency (snd p)) \<subseteq> fst ` set inverted'"
  proof
    fix p
    assume "p \<in> set (entries (bs_documents st))"
    with i8 have "entryOf docs (fst p) (snd p)" by simp
    then have "fst ` set (termFrequency (snd p)) = set (documentTokens (document (snd p)))"
      and "document (snd p) \<in> set docs"
      by (simp_all add: entryOf_def)
    then show "fst ` set (termFrequency (snd p)) \<subseteq> fst ` set inverted'"
      unfolding keys i2 by blast
  qed
  note te = tfidfEntries_Inr [OF ent]
  define es where "es = map (\<lambda>p. (fst p, (snd p)\<lparr>tfidfVector :=
                       map (\<lambda>q. (fst q, numMul (numDiv (real (snd q)) (real (doc_length (snd p))))
                                            (idf (the (map_of inverted' (fst q))))))
                         (termFrequency (snd p))\<rparr>)) (entries (bs_documents st))"
  from assms st r te have index: "index =
      \<lparr>invertedIndex = inverted',
       documentIndex = (bs_documents st)\<lparr>entries := es\<rparr>,
       totalDocuments = length docs, vocabulary = bs_vocabulary st,
       averageDocumentLength =
         (if docs = [] then None
          else Some (numDiv (real (bs_totalLength st)) (real (length docs)))),
       lastIndexed = now\<rparr>"
    by (simp add: buildKnowledgeBaseIndex_def es_def)
  show "lastIndexed index = now" by (simp add: index)
  have post: "set (documents e) = doc_id ` {d \<in> set docs. t \<in> set (documentTokens d)}
            \<and> distinct (documents e)
            \<and> idf e = mathLog (numDiv (real (length docs)) (real (1 + length (documents e))))"
    if me: "map_of inverted' t = Some e" for t e
  proof -
    from me m [of t] obtain e0 where e0: "map_of (bs_inverted st) t = Some e0"
      and e: "e = (if t \<in> set (bs_vocabulary st)
                   then e0\<lparr>idf := mathLog (numDiv (real (length docs))
                                            (real (1 + length (documents e0))))\<rparr>
                   else e0)"
      by auto
    from e0 have "t \<in> fst ` set (bs_inverted st)" by (rule map_of_Some_key)
    with i2 i3 have tv: "t \<in> set (bs_vocabulary st)" by simp
    from i5 have "postings (bs_inverted st) t
                     = doc_id ` {d \<in> set docs. t \<in> set (documentTokens d)}"
      by simp
    with e0 have "set (documents e0) = doc_id ` {d \<in> set docs. t \<in> set (documentTokens d)}"
      by (simp add: postings_def)
    moreover from i1 e0 have "distinct (documents e0)"
      by (force simp add: wfInverted_def dest: map_of_SomeD)
    ultimately show ?thesis using e tv by simp
  qed
  have ents: "entryOf docs (fst p) (snd p)
           \<and> tfidfVector (snd p) =
               map (\<lambda>q. (fst q, numMul (numDiv (real (snd q)) (real (doc_length (snd p))))
                                    (idf (the (map_of (invertedIndex index) (fst q))))))
                 (termFrequency (snd p))"
    if "p \<in> set (entries (documentIndex index))" for p
  proof -
    from that obtain p0 where p0: "p0 \<in> set (entries (bs_documents st))"
      and p: "p = (fst p0, (snd p0)\<lparr>tfidfVector :=
                       map (\<lambda>q. (fst q, numMul (numDiv (real (snd q)) (real (doc_length (snd p0))))
                                            (idf (the (map_of inverted' (fst q))))))
                         (termFrequency (snd p0))\<rparr>)"
      by (auto simp add: index es_def)
    from i8 p0 have "entryOf docs (fst p0) (snd p0)" by simp
    then show ?thesis by (simp add: p entryOf_def index)
  qed
  have mk: "map fst (entries (documentIndex index)) = map fst (entries (bs_documents st))"
    by (simp add: index es_def comp_def)
  have dk: "distinct (map fst (entries (documentIndex index)))"
    using i6 by (simp only: mk)
  have "fst ` set (entries (documentIndex index)) = set (map fst (entries (documentIndex index)))"
    by simp
  also have "\<dots> = fst ` set (entries (bs_documents st))" by (simp only: mk set_map)
  also have "\<dots> = doc_id ` set docs - {''__proto__''}" by (rule i7)
  finally have dd: "fst ` set (entries (documentIndex index)) = doc_id ` set docs - {''__proto__''}" .
  have v1: "set (vocabulary index) = (\<Union>d \<in> set docs. set (documentTokens d))"
    using i3 by (simp add: index)
  have v2: "distinct (vocabulary index)"
    using i4 by (simp add: index)
  have k1: "fst ` set (invertedIndex index) = (\<Union>d \<in> set docs. set (documentTokens d))"
    using i2 keys by (simp add: index)
  from i1 have "fst ` set (bs_inverted st) \<inter> set objectPrototypeNames = {}"
    by (simp add: wfInverted_def)
  moreover have "invertedIndex index = inverted'" by (simp add: index)
  ultimately have k2: "fst ` set (invertedIndex index) \<inter> set objectPrototypeNames = {}"
    by (simp only: keys)
  have p1: "\<forall>t e. map_of (invertedIndex index) t = Some e \<longrightarrow>
            set (documents e) = doc_id ` {d \<in> set docs. t \<in> set (documentTokens d)}
            \<and> distinct (documents e)
            \<and> idf e = mathLog (numDiv (real (length docs)) (real (1 + length (documents e))))"
    using post by (simp add: index)
  have td: "totalDocuments index = length docs" by (simp add: index)
  have e1: "\<forall>p \<in> set (entries (documentIndex index)).
           entryOf docs (fst p) (snd p)
           \<and> tfidfVector (snd p) =
               map (\<lambda>q. (fst q, numMul (numDiv (real (snd q)) (real (doc_length (snd p))))
                                    (idf (the (map_of (invertedIndex index) (fst q))))))
                 (termFrequency (snd p))"
    using ents by blast
  have pr1: "prototype (documentIndex index) = None \<longleftrightarrow> ''__proto__'' \<notin> doc_id ` set docs"
    using i9 by (simp add: index)
  have pr2: "\<forall>e. prototype (documentIndex index) = Some e \<longrightarrow>
            entryOf docs ''__proto__'' e \<and> tfidfVector e = []"
    using i10 by (simp add: index)
  show "builtIndex docs index"
    unfolding builtIndex_def by (intro conjI v1 v2 k1 k2 p1 dk dd e1 pr1 pr2 td)
qed

lemma build_Inr_iff:
  "(\<exists>index. buildKnowledgeBaseIndex docs now = Inr index)
     \<longleftrightarrow> (\<forall>d \<in> set docs. set (documentTokens d) \<inter> set objectPrototypeNames = {})"
proof -
  let ?st0 = "\<lparr>bs_inverted = [], bs_documents = \<lparr>entries = [], prototype = None\<rparr>,
               bs_vocabulary = [], bs_totalLength = 0\<rparr>"
  have "(\<exists>index. buildKnowledgeBaseIndex docs now = Inr index)
          \<longleftrightarrow> (\<exists>st. foldE indexDocument docs ?st0 = Inr st)"
  proof
    assume "\<exists>index. buildKnowledgeBaseIndex docs now = Inr index"
    then show "\<exists>st. foldE indexDocument docs ?st0 = Inr st"
      by (auto simp add: buildKnowledgeBaseIndex_def split: sum.splits)
  next
    assume "\<exists>st. foldE indexDocument docs ?st0 = Inr st"
    then obtain st where st: "foldE indexDocument docs ?st0 = Inr st" ..
    from foldE_indexDocument [OF st buildInv_init] have inv: "buildInv docs st" by simp
    from inv have i2: "fst ` set (bs_inverted st) = (\<Union>d \<in> set docs. set (documentTokens d))"
      and i3: "set (bs_vocabulary st) = (\<Union>d \<in> set docs. set (documentTokens d))"
      and i8: "\<forall>p \<in> set (entries (bs_documents st)). entryOf docs (fst p) (snd p)"
      by (simp_all add: buildInv_def)
    from i2 i3 have sub: "set (bs_vocabulary st) \<subseteq> fst ` set (bs_inverted st)" by simp
    from foldE_setIdf [OF sub, of "length docs"] obtain inverted' where
      r: "foldE (setIdf (length docs)) (bs_vocabulary st) (bs_inverted st) = Inr inverted'"
      and k: "map fst inverted' = map fst (bs_inverted st)"
      by blast
    from k have keys: "fst ` set inverted' = fst ` set (bs_inverted st)" by (rule same_keys)
    have ent: "\<forall>p \<in> set (entries (bs_documents st)).
                 fst ` set (termFrequency (snd p)) \<subseteq> fst ` set inverted'"
    proof
      fix p
      assume "p \<in> set (entries (bs_documents st))"
      with i8 have "entryOf docs (fst p) (snd p)" by simp
      then have "fst ` set (termFrequency (snd p)) = set (documentTokens (document (snd p)))"
        and "document (snd p) \<in> set docs"
        by (simp_all add: entryOf_def)
      then show "fst ` set (termFrequency (snd p)) \<subseteq> fst ` set inverted'"
        unfolding keys i2 by blast
    qed
    from st r tfidfEntries_Inr [OF ent]
    show "\<exists>index. buildKnowledgeBaseIndex docs now = Inr index"
      by (simp add: buildKnowledgeBaseIndex_def)
  qed
  also have "\<dots> \<longleftrightarrow> (\<forall>d \<in> set docs. set (documentTokens d) \<inter> set objectPrototypeNames = {})"
    by (rule foldE_indexDocument_iff [OF buildInv_init])
  finally show ?thesis .
qed

section \<open>Input validation and the result-count bound\<close>

text \<open>
  C10, as amended. The bound passed to the search is 5 when \<open>parseInt(body.maxResults)\<close>
  is \<open>NaN\<close> (the field is missing or not numeric) and also when it is 0; for any
  other integer \<open>n\<close> it is \<open>min n 10\<close>. A positive \<open>n\<close> bounds the number of
  results of the response by \<open>min n 10\<close>.
\<close>

theorem effectiveMaxResults_bound:
  "effectiveMaxResults NaN = 5 \<and> effectiveMaxResults (Num 0) = 5
   \<and> (n \<noteq> 0 \<longrightarrow> effectiveMaxResults (Num n) = min n 10)
   \<and> (0 < n \<longrightarrow>
        length (results (fst (POST now dir c \<lparr>query = q, maxResults = Num n\<rparr>)))
          \<le> nat (min n 10))"
proof -
  have "length (results (fst (POST now dir c \<lparr>query = q, maxResults = Num n\<rparr>)))
          \<le> nat (min n 10)" if "0 < n"
    using that length_results_POST [of "\<lparr>query = q, maxResults = Num n\<rparr>" now dir c]
    by (simp add: effectiveMaxResults_def)
  then show ?thesis
    by (simp add: effectiveMaxResults_def MAX_RESULTS_def)
qed

theorem effectiveMaxResults_bound_witness:
  "effectiveMaxResults (Num 25) = 10
   \<and> length (results (fst (POST 0 DirMissing None \<lparr>query = ''ab'', maxResults = Num 25\<rparr>)))
       \<le> 10"
  using effectiveMaxResults_bound [of 25 0 DirMissing None "''ab''"] by simp

text \<open>
  The claim as stated fails for a request with \<open>maxResults = 0\<close>: the parsed value is 0,
  \<open>min 0 10 = 0\<close>, and the bound is 5.
\<close>

theorem effectiveMaxResults_zero_counterexample:
  "effectiveMaxResults (Num 0) \<noteq> min 0 10"
  by (simp add: effectiveMaxResults_def MAX_RESULTS_def)

text \<open>
  C6. A query whose trimmed length is below 2 or above 500 is answered with status 400,
  no results and the cache untouched. A query of trimmed length 2 to 500 passes: the
  response is that of the load and the search, and the string searched is the whole
  trimmed query.
\<close>

theorem POST_validates_query:
  "(length (trim (query r)) < 2 \<longrightarrow>
      POST now dir c r = (errorResponse 400 ''Query must be at least 2 characters long'', c))
   \<and> (500 < length (trim (query r)) \<longrightarrow>
        POST now dir c r = (errorResponse 400 ''Query is too long (max 500 characters)'', c))
   \<and> (length (trim (query r)) < 2 \<or> 500 < length (trim (query r)) \<longrightarrow>
        status (fst (POST now dir c r)) = 400 \<and> results (fst (POST now dir c r)) = [])
   \<and> (2 \<le> length (trim (query r)) \<and> length (trim (query r)) \<le> 500 \<longrightarrow>
        status (fst (POST now dir c r)) \<noteq> 400
        \<and> POST now dir c r =
            (case loadKnowledgeBaseDocuments now dir c of
               (docs, cache) \<Rightarrow>
                 if docs = [] then
                   (errorResponse 503 ''No documents available in knowledge base'', cache)
                 else
                   (\<lparr>status = 200,
                     results = map trimContent
                                 (searchDocuments (trim (query r)) docs
                                    (effectiveMaxResults (maxResults r)) cache),
                     total_documents = length docs, success = True,
                     error_message = None\<rparr>, cache)))"
proof -
  have short: "length (trim (query r)) < 2 \<Longrightarrow>
      POST now dir c r = (errorResponse 400 ''Query must be at least 2 characters long'', c)"
    by (rule POST_too_short)
  have long: "500 < length (trim (query r)) \<Longrightarrow>
      POST now dir c r = (errorResponse 400 ''Query is too long (max 500 characters)'', c)"
    by (rule POST_too_long)
  have bad: "status (fst (POST now dir c r)) = 400 \<and> results (fst (POST now dir c r)) = []"
    if "length (trim (query r)) < 2 \<or> 500 < length (trim (query r))"
    using that short long by (auto simp add: errorResponse_def)
  have ok: "status (fst (POST now dir c r)) \<noteq> 400"
    if "2 \<le> length (trim (query r))" "length (trim (query r)) \<le> 500"
    using POST_valid [OF that, of now dir c]
    by (simp add: errorResponse_def split: prod.split)
  show ?thesis
    using short long bad ok POST_valid [of r now dir c] by blast
qed

theorem POST_validates_query_witness:
  "POST 0 DirMissing None \<lparr>query = '' a '', maxResults = NaN\<rparr>
     = (errorResponse 400 ''Query must be at least 2 characters long'', None)
   \<and> status (fst (POST 0 DirMissing None \<lparr>query = '' ab '', maxResults = NaN\<rparr>)) \<noteq> 400"
proof -
  have a: "length (trim (query \<lparr>query = '' a '', maxResults = NaN\<rparr>)) < 2"
    by (simp add: trim_def isSpace_def)
  have b: "2 \<le> length (trim (query \<lparr>query = '' ab '', maxResults = NaN\<rparr>))
           \<and> length (trim (query \<lparr>query = '' ab '', maxResults = NaN\<rparr>)) \<le> 500"
    by (simp add: trim_def isSpace_def)
  show ?thesis
    using a b
      POST_validates_query [of "\<lparr>query = '' a '', maxResults = NaN\<rparr>" 0 DirMissing None]
      POST_validates_query [of "\<lparr>query = '' ab '', maxResults = NaN\<rparr>" 0 DirMissing None]
    by blast
qed

section \<open>Evaluation of the examples\<close>

lemmas text_evals = tokenizeAndNormalize_def documentTokens_def toLowerCase_def toLowerChar_Char
  isWordChar_def isSpace_def isLineTerminator_def splitOn_def stopWords_def

lemmas build_evals = buildKnowledgeBaseIndex_def indexDocument_def indexWord_def getProperty_def
  objectPrototypeNames_def setAdd_def extractTopicsFromFilename_def createSimpleEmbeddings_def
  setDocumentEntry_def setIdf_def mathLog_def double_evals

lemma build_example: "buildKnowledgeBaseIndex [cloudDoc, mlDoc] 0 = Inr exampleIndex"
  by (simp add: text_evals build_evals cloudDoc_def mlDoc_def exampleIndex_def)

lemma card_image_filter:
  assumes "distinct (map f xs)"
  shows "card (f ` {x \<in> set xs. P x}) = length (filter P xs)"
proof -
  from assms have "distinct (map f (filter P xs))" by (rule distinct_map_filter)
  then have "card (set (map f (filter P xs))) = length (map f (filter P xs))"
    by (rule distinct_card)
  then show ?thesis by simp
qed

lemma map_of_map_distinct:
  "distinct (map fst xs) \<Longrightarrow> q \<in> set xs \<Longrightarrow>
   map_of (map (\<lambda>q. (fst q, f q)) xs) (fst q) = Some (f q)"
  by (induction xs) (auto simp add: rev_image_eqI)

section \<open>Inverse document frequency and TF-IDF vectors\<close>

lemma builtIndex_vocabulary:
  assumes "builtIndex docs index"
  shows "set (vocabulary index) = fst ` set (invertedIndex index)"
proof -
  from assms have "set (vocabulary index) = (\<Union>d \<in> set docs. set (documentTokens d))"
    unfolding builtIndex_def by (elim conjE) assumption
  moreover from assms
  have "fst ` set (invertedIndex index) = (\<Union>d \<in> set docs. set (documentTokens d))"
    unfolding builtIndex_def by (elim conjE) assumption
  ultimately show ?thesis by (simp only:)
qed

lemma builtIndex_keys:
  "builtIndex docs index \<Longrightarrow>
   fst ` set (invertedIndex index) = (\<Union>d \<in> set docs. set (documentTokens d))"
  unfolding builtIndex_def by (elim conjE) assumption

lemma builtIndex_noproto:
  "builtIndex docs index \<Longrightarrow> fst ` set (invertedIndex index) \<inter> set objectPrototypeNames = {}"
  unfolding builtIndex_def by (elim conjE) assumption

lemma builtIndex_posting:
  assumes "builtIndex docs index" and "map_of (invertedIndex index) t = Some e"
  shows "set (documents e) = doc_id ` {d \<in> set docs. t \<in> set (documentTokens d)}"
    and "distinct (documents e)"
    and "idf e = mathLog (numDiv (real (length docs)) (real (1 + length (documents e))))"
proof -
  from assms(1) have "\<forall>t e. map_of (invertedIndex index) t = Some e \<longrightarrow>
            set (documents e) = doc_id ` {d \<in> set docs. t \<in> set (documentTokens d)}
            \<and> distinct (documents e)
            \<and> idf e = mathLog (numDiv (real (length docs)) (real (1 + length (documents e))))"
    unfolding builtIndex_def by (elim conjE) assumption
  with assms(2) show "set (documents e) = doc_id ` {d \<in> set docs. t \<in> set (documentTokens d)}"
    and "distinct (documents e)"
    and "idf e = mathLog (numDiv (real (length docs)) (real (1 + length (documents e))))"
    by blast+
qed

lemma builtIndex_entries:
  assumes "builtIndex docs index"
  shows "distinct (map fst (entries (documentIndex index)))"
    and "fst ` set (entries (documentIndex index)) = doc_id ` set docs - {''__proto__''}"
proof -
  from assms show "distinct (map fst (entries (documentIndex index)))"
    unfolding builtIndex_def by (elim conjE) assumption
  from assms show "fst ` set (entries (documentIndex index)) = doc_id ` set docs - {''__proto__''}"
    unfolding builtIndex_def by (elim conjE) assumption
qed

lemma builtIndex_entry:
  assumes "builtIndex docs index" and "p \<in> set (entries (documentIndex index))"
  shows "entryOf docs (fst p) (snd p)"
    and "tfidfVector (snd p) =
       map (\<lambda>q. (fst q, numMul (numDiv (real (snd q)) (real (doc_length (snd p))))
                            (idf (the (map_of (invertedIndex index) (fst q))))))
         (termFrequency (snd p))"
proof -
  from assms(1) have "\<forall>p \<in> set (entries (documentIndex index)).
           entryOf docs (fst p) (snd p)
           \<and> tfidfVector (snd p) =
               map (\<lambda>q. (fst q, numMul (numDiv (real (snd q)) (real (doc_length (snd p))))
                                    (idf (the (map_of (invertedIndex index) (fst q))))))
                 (termFrequency (snd p))"
    unfolding builtIndex_def by (elim conjE) assumption
  then have e: "entryOf docs (fst p) (snd p)
           \<and> tfidfVector (snd p) =
               map (\<lambda>q. (fst q, numMul (numDiv (real (snd q)) (real (doc_length (snd p))))
                                    (idf (the (map_of (invertedIndex index) (fst q))))))
                 (termFrequency (snd p))" using assms(2) by (rule bspec)
  from e show "entryOf docs (fst p) (snd p)" by (elim conjE) assumption
  from e show "tfidfVector (snd p) =
       map (\<lambda>q. (fst q, numMul (numDiv (real (snd q)) (real (doc_length (snd p))))
                            (idf (the (map_of (invertedIndex index) (fst q))))))
         (termFrequency (snd p))" by (elim conjE) assumption
qed

lemma builtIndex_prototype:
  assumes "builtIndex docs index"
  shows "prototype (documentIndex index) = None \<longleftrightarrow> ''__proto__'' \<notin> doc_id ` set docs"
    and "prototype (documentIndex index) = Some e \<Longrightarrow>
           entryOf docs ''__proto__'' e \<and> tfidfVector e = []"
proof -
  from assms show "prototype (documentIndex index) = None \<longleftrightarrow> ''__proto__'' \<notin> doc_id ` set docs"
    unfolding builtIndex_def by (elim conjE) assumption
  from assms have "\<forall>e. prototype (documentIndex index) = Some e \<longrightarrow>
            entryOf docs ''__proto__'' e \<and> tfidfVector e = []"
    unfolding builtIndex_def by (elim conjE) assumption
  then show "prototype (documentIndex index) = Some e \<Longrightarrow>
           entryOf docs ''__proto__'' e \<and> tfidfVector e = []"
    by blast
qed

text \<open>
  Where the build returns an index, every term of the vocabulary has the rounded
  \<open>Math.log(N / (1 + df))\<close> with \<open>df\<close> the number of distinct document ids among the
  documents that contain the term, which is the number of those documents when the
  ids are pairwise distinct; and every own entry of the document index has the rounded
  \<open>(tf / length) * idf\<close> for each of its terms.
\<close>

lemma built_idf:
  assumes b: "buildKnowledgeBaseIndex docs now = Inr index"
    and t: "t \<in> set (vocabulary index)"
  shows "\<exists>e. map_of (invertedIndex index) t = Some e
             \<and> idf e = mathLog (numDiv (real (length docs))
                          (real (1 + card (doc_id ` {d \<in> set docs. t \<in> set (documentTokens d)}))))
             \<and> (distinct (map doc_id docs) \<longrightarrow>
                  idf e = mathLog (numDiv (real (length docs))
                            (real (1 + documentFrequency docs t))))"
proof -
  note bi = build_Inr(1) [OF b]
  from t have "t \<in> fst ` set (invertedIndex index)"
    by (simp only: builtIndex_vocabulary [OF bi])
  from key_map_of [OF this] obtain e where e: "map_of (invertedIndex index) t = Some e" ..
  note po = builtIndex_posting [OF bi e]
  have "card (set (documents e)) = length (documents e)" by (rule distinct_card [OF po(2)])
  then have l: "length (documents e)
                    = card (doc_id ` {d \<in> set docs. t \<in> set (documentTokens d)})"
    by (simp only: po(1))
  have c: "distinct (map doc_id docs) \<Longrightarrow>
          card (doc_id ` {d \<in> set docs. t \<in> set (documentTokens d)}) = documentFrequency docs t"
    unfolding documentFrequency_def by (rule card_image_filter)
  have i1: "idf e = mathLog (numDiv (real (length docs))
                (real (1 + card (doc_id ` {d \<in> set docs. t \<in> set (documentTokens d)}))))"
    using po(3) by (simp only: l)
  have i2: "distinct (map doc_id docs) \<longrightarrow>
                  idf e = mathLog (numDiv (real (length docs))
                            (real (1 + documentFrequency docs t)))"
    using i1 c by simp
  from e i1 i2 show ?thesis by blast
qed

lemma built_tfidf:
  assumes b: "buildKnowledgeBaseIndex docs now = Inr index"
    and p: "p \<in> set (entries (documentIndex index))" and q: "q \<in> set (termFrequency (snd p))"
  shows "\<exists>e. map_of (invertedIndex index) (fst q) = Some e
               \<and> map_of (tfidfVector (snd p)) (fst q)
                   = Some (numMul (numDiv (real (snd q)) (real (doc_length (snd p)))) (idf e))"
proof -
  note bi = build_Inr(1) [OF b]
  note en = builtIndex_entry [OF bi p]
  from en(1) have d: "document (snd p) \<in> set docs"
    and dt: "distinct (map fst (termFrequency (snd p)))"
    and tk: "fst ` set (termFrequency (snd p)) = set (documentTokens (document (snd p)))"
    by (simp_all add: entryOf_def)
  from q have "fst q \<in> fst ` set (termFrequency (snd p))" by (rule imageI)
  then have "fst q \<in> set (documentTokens (document (snd p)))" by (simp only: tk)
  with d have "fst q \<in> (\<Union>d \<in> set docs. set (documentTokens d))" by blast
  then have "fst q \<in> fst ` set (invertedIndex index)"
    by (simp only: builtIndex_keys [OF bi])
  from key_map_of [OF this] obtain e where e: "map_of (invertedIndex index) (fst q) = Some e" ..
  have "map_of (tfidfVector (snd p)) (fst q)
          = Some (numMul (numDiv (real (snd q)) (real (doc_length (snd p))))
                    (idf (the (map_of (invertedIndex index) (fst q)))))"
    unfolding en(2) by (rule map_of_map_distinct [OF dt q])
  with e show ?thesis by simp
qed

text \<open>
  C4. The code diverges from the claim when two files give the same document id:
  both files of \<open>sameIdDocs\<close> contain \<open>gamma\<close>, so the claim's \<open>df\<close> is 2 and its
  \<open>idf\<close> is \<open>ln (2 / 3)\<close>, a negative number; the posting set of \<open>gamma\<close> holds the one
  id, and the code stores \<open>Math.log(2 / 2) = 0\<close>.
\<close>

theorem index_idf_colliding_ids:
  "builtIdf sameIdDocs ''gamma'' = Some 0
   \<and> documentFrequency sameIdDocs ''gamma'' = 2
   \<and> ln (real (length sameIdDocs) / real (1 + documentFrequency sameIdDocs ''gamma'')) < 0
   \<and> mathLog (numDiv (real (length sameIdDocs))
                (real (1 + documentFrequency sameIdDocs ''gamma''))) < 0"
proof -
  have "builtIdf sameIdDocs ''gamma'' = Some 0"
    by (simp add: builtIdf_def sameIdDocs_def text_evals build_evals)
  moreover have "documentFrequency sameIdDocs ''gamma'' = 2"
    by (simp add: documentFrequency_def sameIdDocs_def text_evals)
  ultimately show ?thesis by (simp add: sameIdDocs_def mathLog_def double_evals)
qed

text \<open>
  Two more inputs on which the index is not the one of the claim. A document with the
  token \<open>constructor\<close> makes the build raise, so that no index is built from the
  corpus. A file \<open>__proto__.md\<close> has the id \<open>__proto__\<close>: its entry becomes the prototype
  of \<open>documentIndex\<close>, the third pass does not visit it, and its \<open>tfidfVector\<close> stays
  empty; a request served from the cache then finds no document.
\<close>

lemma build_constructor_token:
  "buildKnowledgeBaseIndex [cloudDoc, constructorDoc] 0 = Inl TypeError"
  by (simp add: text_evals build_evals cloudDoc_def constructorDoc_def)

lemma build_proto_id:
  "\<exists>index e. buildKnowledgeBaseIndex [protoDoc] 0 = Inr index
      \<and> entries (documentIndex index) = []
      \<and> prototype (documentIndex index) = Some e
      \<and> document e = protoDoc \<and> termFrequency e = [(''prototype'', 2), (''chains'', 2)]
      \<and> tfidfVector e = []
      \<and> fst (loadKnowledgeBaseDocuments 1 (MdFiles [Some protoDoc]) (Some index)) = []"
  by (simp add: text_evals build_evals protoDoc_def loadKnowledgeBaseDocuments_def
      CACHE_TTL_def objectValues_def)

section \<open>Index cache: empty corpus and failed rebuild\<close>

lemma load_stale:
  "\<not> cacheFresh now c \<Longrightarrow> loadKnowledgeBaseDocuments now dir c = rebuildIndex now dir"
  by (cases c) (simp_all add: loadKnowledgeBaseDocuments_def cacheFresh_def)

lemma load_fresh:
  "now - lastIndexed index < CACHE_TTL \<Longrightarrow>
   loadKnowledgeBaseDocuments now dir (Some index)
     = (map document (objectValues (entries (documentIndex index))), Some index)"
  by (simp add: loadKnowledgeBaseDocuments_def)

lemma rebuild_fails:
  "rebuildFails now dir \<Longrightarrow> rebuildIndex now dir = ([], Some (createEmptyIndex now))"
  by (auto simp add: rebuildFails_def rebuildIndex_def Let_def isl_def
      split: KnowledgeBaseDir.splits)

lemma objectValues_Nil: "objectValues [] = []"
  by (simp add: objectValues_def)

lemma load_empty_index:
  "now' - now < CACHE_TTL \<Longrightarrow>
   loadKnowledgeBaseDocuments now' dir (Some (createEmptyIndex now))
     = ([], Some (createEmptyIndex now))"
  by (simp add: load_fresh createEmptyIndex_def objectValues_Nil)

lemma snd_rebuildIndex: "\<exists>index. snd (rebuildIndex now dir) = Some index"
  by (simp add: rebuildIndex_def Let_def split: KnowledgeBaseDir.split sum.split)

lemma snd_load: "\<exists>index. snd (loadKnowledgeBaseDocuments now dir c) = Some index"
  using snd_rebuildIndex [of now dir]
  by (simp add: loadKnowledgeBaseDocuments_def split: option.split)

lemma build_Nil: "\<exists>index. buildKnowledgeBaseIndex [] now = Inr index"
  by (simp add: buildKnowledgeBaseIndex_def)

lemma rebuild_no_documents:
  "parsedDocuments files = [] \<Longrightarrow> fst (rebuildIndex now (MdFiles files)) = []"
  by (simp add: rebuildIndex_def Let_def buildKnowledgeBaseIndex_def)

lemma POST_no_documents:
  assumes "2 \<le> length (trim (query r))" and "length (trim (query r)) \<le> 500"
    and "fst (loadKnowledgeBaseDocuments now dir c) = []"
  shows "POST now dir c r =
           (errorResponse 503 ''No documents available in knowledge base'',
            snd (loadKnowledgeBaseDocuments now dir c))"
proof -
  obtain docs cache where l: "loadKnowledgeBaseDocuments now dir c = (docs, cache)"
    by (cases "loadKnowledgeBaseDocuments now dir c")
  with assms(3) show ?thesis
    by (simp add: POST_valid [OF assms(1,2)])
qed

lemma POST_status_503:
  "status (fst (POST now dir c r)) = 503 \<longleftrightarrow>
     2 \<le> length (trim (query r)) \<and> length (trim (query r)) \<le> 500
     \<and> fst (loadKnowledgeBaseDocuments now dir c) = []"
proof (cases "2 \<le> length (trim (query r)) \<and> length (trim (query r)) \<le> 500")
  case True
  then show ?thesis
    using POST_valid [of r now dir c]
    by (simp add: errorResponse_def split: prod.split)
next
  case False
  then have "length (trim (query r)) < 2 \<or> 500 < length (trim (query r))" by auto
  then show ?thesis
    using POST_too_short [of r now dir c] POST_too_long [of r now dir c] False
    by (auto simp add: errorResponse_def)
qed

lemma searchDocuments_no_tokens:
  "tokenizeAndNormalize q = [] \<Longrightarrow> searchDocuments q docs m (Some index) = []"
  by (simp add: searchDocuments_def)

lemma POST_no_tokens:
  assumes "2 \<le> length (trim (query r))" and "length (trim (query r)) \<le> 500"
    and "tokenizeAndNormalize (trim (query r)) = []"
    and "fst (loadKnowledgeBaseDocuments now dir c) \<noteq> []"
  shows "fst (POST now dir c r) =
           \<lparr>status = 200, results = [],
            total_documents = length (fst (loadKnowledgeBaseDocuments now dir c)),
            success = True, error_message = None\<rparr>"
proof -
  obtain docs cache where l: "loadKnowledgeBaseDocuments now dir c = (docs, cache)"
    by (cases "loadKnowledgeBaseDocuments now dir c")
  from snd_load [of now dir c] l obtain index where "cache = Some index" by auto
  with assms(3,4) l show ?thesis
    by (simp add: POST_valid [OF assms(1,2)] searchDocuments_no_tokens)
qed

text \<open>
  C2. For a valid query, when no document is loaded the response has status 503, no
  results, \<open>totalDocuments = 0\<close> and the error message of the empty knowledge base, and
  the cache holds an index afterwards, so a later request can succeed. Status 503 is
  returned in this case only, which distinguishes it. No document is loaded when the
  cache is not fresh and the directory is missing or none of its files parses.
\<close>
theorem empty_corpus_response:
  "(2 \<le> length (trim (query r)) \<and> length (trim (query r)) \<le> 500
      \<and> fst (loadKnowledgeBaseDocuments now dir c) = [] \<longrightarrow>
      fst (POST now dir c r) =
        \<lparr>status = 503, results = [], total_documents = 0, success = False,
         error_message = Some ''No documents available in knowledge base''\<rparr>
      \<and> snd (POST now dir c r) \<noteq> None)
   \<and> (status (fst (POST now dir c r)) = 503 \<longleftrightarrow>
        2 \<le> length (trim (query r)) \<and> length (trim (query r)) \<le> 500
        \<and> fst (loadKnowledgeBaseDocuments now dir c) = [])
   \<and> (\<not> cacheFresh now c \<and> parsedDocuments files = [] \<longrightarrow>
        fst (loadKnowledgeBaseDocuments now (MdFiles files) c) = []
        \<and> fst (loadKnowledgeBaseDocuments now DirMissing c) = [])"
proof (intro conjI impI)
  assume a: "2 \<le> length (trim (query r)) \<and> length (trim (query r)) \<le> 500
      \<and> fst (loadKnowledgeBaseDocuments now dir c) = []"
  then have p: "POST now dir c r =
           (errorResponse 503 ''No documents available in knowledge base'',
            snd (loadKnowledgeBaseDocuments now dir c))"
    by (simp add: POST_no_documents)
  then show "fst (POST now dir c r) =
        \<lparr>status = 503, results = [], total_documents = 0, success = False,
         error_message = Some ''No documents available in knowledge base''\<rparr>"
    by (simp add: errorResponse_def)
  from p snd_load [of now dir c] show "snd (POST now dir c r) \<noteq> None" by auto
next
  show "status (fst (POST now dir c r)) = 503 \<longleftrightarrow>
        2 \<le> length (trim (query r)) \<and> length (trim (query r)) \<le> 500
        \<and> fst (loadKnowledgeBaseDocuments now dir c) = []"
    by (rule POST_status_503)
next
  assume "\<not> cacheFresh now c \<and> parsedDocuments files = []"
  then show "fst (loadKnowledgeBaseDocuments now (MdFiles files) c) = []"
    by (simp add: load_stale rebuild_no_documents)
next
  assume "\<not> cacheFresh now c \<and> parsedDocuments files = []"
  then show "fst (loadKnowledgeBaseDocuments now DirMissing c) = []"
    by (simp add: load_stale rebuildIndex_def)
qed

theorem empty_corpus_response_witness:
  "fst (POST 0 (MdFiles [None]) None \<lparr>query = ''machine learning'', maxResults = NaN\<rparr>) =
     \<lparr>status = 503, results = [], total_documents = 0, success = False,
      error_message = Some ''No documents available in knowledge base''\<rparr>"
proof -
  have v: "2 \<le> length (trim (query \<lparr>query = ''machine learning'', maxResults = NaN\<rparr>))
         \<and> length (trim (query \<lparr>query = ''machine learning'', maxResults = NaN\<rparr>)) \<le> 500"
    by (simp add: trim_def isSpace_def)
  have s: "\<not> cacheFresh 0 None \<and> parsedDocuments [None] = []"
    by (simp add: cacheFresh_def parsedDocuments_def)
  from empty_corpus_response
    [of "\<lparr>query = ''machine learning'', maxResults = NaN\<rparr>" 0 "MdFiles [None]" None "[None]"]
    v s
  show ?thesis by blast
qed

text \<open>
  C1, as amended. When the cache is absent or older than the time-to-live and the
  rebuild fails (the directory is missing, reading it raises, or building the index
  raises), the cached index is replaced by the empty index stamped with the current
  time and no document is returned; the triggering query, when valid, is answered with
  status 503 and the message of the empty knowledge base; and the empty index is
  served, whatever the directory holds, until the time-to-live has passed.
\<close>
theorem failed_rebuild_installs_empty_index:
  "\<not> cacheFresh now c \<and> rebuildFails now dir \<longrightarrow>
     loadKnowledgeBaseDocuments now dir c = ([], Some (createEmptyIndex now))
     \<and> (2 \<le> length (trim (query r)) \<and> length (trim (query r)) \<le> 500 \<longrightarrow>
          POST now dir c r
            = (errorResponse 503 ''No documents available in knowledge base'',
               Some (createEmptyIndex now)))
     \<and> (now' - now < CACHE_TTL \<longrightarrow>
          loadKnowledgeBaseDocuments now' dir' (Some (createEmptyIndex now))
            = ([], Some (createEmptyIndex now)))"
proof (intro impI conjI)
  assume a: "\<not> cacheFresh now c \<and> rebuildFails now dir"
  then show l: "loadKnowledgeBaseDocuments now dir c = ([], Some (createEmptyIndex now))"
    by (simp add: load_stale rebuild_fails)
  show "POST now dir c r
            = (errorResponse 503 ''No documents available in knowledge base'',
               Some (createEmptyIndex now))"
    if "2 \<le> length (trim (query r)) \<and> length (trim (query r)) \<le> 500"
    using that l by (simp add: POST_no_documents)
next
  assume "now' - now < CACHE_TTL"
  then show "loadKnowledgeBaseDocuments now' dir' (Some (createEmptyIndex now))
            = ([], Some (createEmptyIndex now))"
    by (rule load_empty_index)
qed

theorem failed_rebuild_installs_empty_index_witness:
  "loadKnowledgeBaseDocuments 300000 DirMissing (Some exampleIndex)
     = ([], Some (createEmptyIndex 300000))
   \<and> POST 300000 DirMissing (Some exampleIndex) \<lparr>query = ''machine learning'', maxResults = NaN\<rparr>
       = (errorResponse 503 ''No documents available in knowledge base'',
          Some (createEmptyIndex 300000))"
proof -
  have v: "2 \<le> length (trim (query \<lparr>query = ''machine learning'', maxResults = NaN\<rparr>))
         \<and> length (trim (query \<lparr>query = ''machine learning'', maxResults = NaN\<rparr>)) \<le> 500"
    by (simp add: trim_def isSpace_def)
  have s: "\<not> cacheFresh 300000 (Some exampleIndex) \<and> rebuildFails 300000 DirMissing"
    by (simp add: cacheFresh_def rebuildFails_def exampleIndex_def CACHE_TTL_def)
  from failed_rebuild_installs_empty_index
    [of 300000 "Some exampleIndex" DirMissing
        "\<lparr>query = ''machine learning'', maxResults = NaN\<rparr>"] v s
  show ?thesis by blast
qed

text \<open>
  The claim as stated fails: \<open>exampleIndex\<close>, built at time 0, serves its two
  documents at time 299999; at time 300000 it is stale, the directory is missing, and
  the cache no longer holds it; a query one millisecond later gets no document although
  the directory is back.
\<close>

theorem failed_rebuild_counterexample:
  "loadKnowledgeBaseDocuments 299999 DirMissing (Some exampleIndex)
     = ([cloudDoc, mlDoc], Some exampleIndex)
   \<and> snd (loadKnowledgeBaseDocuments 300000 DirMissing (Some exampleIndex)) \<noteq> Some exampleIndex
   \<and> fst (loadKnowledgeBaseDocuments 300001 exampleDir
            (snd (loadKnowledgeBaseDocuments 300000 DirMissing (Some exampleIndex)))) = []"
proof -
  have "loadKnowledgeBaseDocuments 299999 DirMissing (Some exampleIndex)
     = ([cloudDoc, mlDoc], Some exampleIndex)"
    by (simp add: loadKnowledgeBaseDocuments_def exampleIndex_def CACHE_TTL_def
        objectValues_def isArrayIndex_def)
  moreover have l: "loadKnowledgeBaseDocuments 300000 DirMissing (Some exampleIndex)
     = ([], Some (createEmptyIndex 300000))"
    by (simp add: loadKnowledgeBaseDocuments_def exampleIndex_def CACHE_TTL_def rebuildIndex_def)
  moreover have "createEmptyIndex 300000 \<noteq> exampleIndex"
    by (simp add: createEmptyIndex_def exampleIndex_def)
  moreover have "loadKnowledgeBaseDocuments 300001 exampleDir (Some (createEmptyIndex 300000))
     = ([], Some (createEmptyIndex 300000))"
    by (simp add: load_empty_index CACHE_TTL_def)
  ultimately show ?thesis by simp
qed

section \<open>Evaluation of searches\<close>

lemmas search_evals = indexedResults_def expandQueryForSmallKb_def synonymMap_def termMap_def
  getRelatedTerms_def newSet_def candidateDocIds_def temporalTerms_def rawScore_def
  earlierIncrements_def laterIncrements_def exactTitleSignal_def exactContentSignal_def
  tfidfSignal_def topicSignal_def phraseSignal_def tagSignal_def similaritySignal_def
  coverageSignal_def proximitySignal_def headerSignal_def codeSignal_def listSignal_def
  densitySignal_def lengthBonus_def filenameSignal_def temporalSignal_def intentSignal_def
  crossRefSignal_def relevanceBoost_def analyzeQueryIntent_def countWhere_def wordCount_def
  createQueryEmbedding_def cosineSimilarity_def proximityAt_def headerAt_def listItemAt_def
  codeAt_def inlineCodeAt_def matchSpaceThenLine_def normalizedScore_def mathRound_def
  temporalKeywords_def futureTerms_def getDocumentEntry_def entryFieldNames_def mathSqrt_def

lemma sqrt_9: "sqrt 9 = 3"
  using real_sqrt_abs [of 3] by simp

lemma ranking_load:
  "fst (loadKnowledgeBaseDocuments 0 rankingDir None) = [backupDoc, securityDoc, pricingDoc]"
  by (simp add: loadKnowledgeBaseDocuments_def rebuildIndex_def rankingDir_def parsedDocuments_def
      text_evals build_evals backupDoc_def securityDoc_def pricingDoc_def)

lemma ranking_candidates:
  "scoredCandidates ''cloud'' [backupDoc, securityDoc, pricingDoc] rankingCache
     = [\<lparr>scored = backupDoc, searchScore = 21\<rparr>, \<lparr>scored = securityDoc, searchScore = 21\<rparr>,
        \<lparr>scored = pricingDoc, searchScore = 9\<rparr>]"
  by (simp add: scoredCandidates_def rankingCache_def loadKnowledgeBaseDocuments_def
      rebuildIndex_def rankingDir_def parsedDocuments_def
      text_evals build_evals search_evals backupDoc_def securityDoc_def pricingDoc_def sqrt_9
      zero_less_mult_iff)

lemma ranking_POST:
  assumes "2 \<le> length (trim (query r))" and "length (trim (query r)) \<le> 500"
  shows "fst (POST 0 rankingDir None r) =
           \<lparr>status = 200,
            results = map trimContent
                        (searchDocuments (trim (query r)) [backupDoc, securityDoc, pricingDoc]
                           (effectiveMaxResults (maxResults r)) rankingCache),
            total_documents = 3, success = True, error_message = None\<rparr>"
proof -
  have "loadKnowledgeBaseDocuments 0 rankingDir None
          = ([backupDoc, securityDoc, pricingDoc], rankingCache)"
    using ranking_load by (simp add: rankingCache_def prod_eq_iff)
  then show ?thesis by (simp add: POST_valid [OF assms])
qed

section \<open>Ranking: bounds, order and truncation\<close>

lemma slice0_take: "\<exists>n. slice0 m xs = take n xs"
  by (simp add: slice0_def) blast

lemma sorted_desc_sort_key:
  "sorted_wrt (\<lambda>a b. searchScore b \<le> searchScore a) (sort_key (\<lambda>r. - searchScore r) rs)"
proof -
  have "sorted (map (\<lambda>r. - searchScore r) (sort_key (\<lambda>r. - searchScore r) rs))"
    by (rule sorted_sort_key)
  then show ?thesis by (simp add: sorted_map)
qed

lemma sorted_topResults:
  "sorted_wrt (\<lambda>a b. searchScore b \<le> searchScore a) (topResults m rs)"
proof -
  obtain n where "slice0 m (sort_key (\<lambda>r. - searchScore r) rs)
                    = take n (sort_key (\<lambda>r. - searchScore r) rs)"
    using slice0_take by blast
  then show ?thesis
    by (simp add: topResults_def sorted_desc_sort_key)
qed

lemma set_topResults: "set (topResults m rs) \<subseteq> set rs"
proof -
  obtain n where "slice0 m (sort_key (\<lambda>r. - searchScore r) rs)
                    = take n (sort_key (\<lambda>r. - searchScore r) rs)"
    using slice0_take by blast
  then have "set (topResults m rs) = set (take n (sort_key (\<lambda>r. - searchScore r) rs))"
    by (simp add: topResults_def)
  also have "\<dots> \<subseteq> set (sort_key (\<lambda>r. - searchScore r) rs)" by (rule set_take_subset)
  also have "\<dots> = set rs" by simp
  finally show ?thesis .
qed

lemma topResults_Nil [simp]: "topResults m [] = []"
  by (simp add: topResults_def slice0_def)


lemma searchDocuments_top:
  "searchDocuments q docs m c = topResults m (scoredCandidates q docs c)"
  by (simp add: searchDocuments_def scoredCandidates_def searchDocumentsBasic_def
      basicCandidates_def Let_def split: option.split sum.split)

lemma normalizedScore_bounds:
  "0 \<le> s \<Longrightarrow> 0 \<le> normalizedScore s \<and> normalizedScore s \<le> 100"
  by (simp add: normalizedScore_def mathRound_def numMul_def numDiv_def)

lemma scoreCandidates_bounds:
  "scoreCandidates q qw ex temp index cands = Inr rs \<Longrightarrow>
   \<forall>r \<in> set rs. 0 \<le> searchScore r \<and> searchScore r \<le> 100"
proof (induction cands arbitrary: rs)
  case Nil
  then show ?case by simp
next
  case (Cons docId cands)
  show ?case
  proof (cases "getDocumentEntry (documentIndex index) docId")
    case (Own e)
    with Cons.prems obtain rel rs' where
      rel: "getRelatedTerms qw = Inr rel"
      and rest: "scoreCandidates q qw ex temp index cands = Inr rs'"
      and rs: "rs = (if rawScore q qw ex temp rel index e > 8
                     then \<lparr>scored = document e,
                            searchScore = normalizedScore (rawScore q qw ex temp rel index e)\<rparr> # rs'
                     else rs')"
      by (auto simp add: Let_def split: sum.splits if_splits)
    from Cons.IH [OF rest] have "\<forall>r \<in> set rs'. 0 \<le> searchScore r \<and> searchScore r \<le> 100" .
    then show ?thesis
      using normalizedScore_bounds [of "rawScore q qw ex temp rel index e"]
      by (auto simp add: rs)
  next
    case Inherited
    with Cons.prems show ?thesis by simp
  next
    case Undefined
    with Cons show ?thesis by simp
  qed
qed

lemma indexedResults_bounds:
  "indexedResults q index = Inr rs \<Longrightarrow>
   \<forall>r \<in> set rs. 0 \<le> searchScore r \<and> searchScore r \<le> 100"
  by (auto simp add: indexedResults_def Let_def
      split: sum.splits if_splits dest!: scoreCandidates_bounds)

lemma basicResults_bounds:
  "\<forall>r \<in> set (basicResults qw docs). 0 \<le> searchScore r \<and> searchScore r \<le> 100"
  by (auto simp add: basicResults_def mathRound_def numMul_def numDiv_def)

lemma scoredCandidates_bounds:
  "\<forall>r \<in> set (scoredCandidates q docs c). 0 \<le> searchScore r \<and> searchScore r \<le> 100"
proof -
  have basic: "\<forall>r \<in> set (basicCandidates q docs). 0 \<le> searchScore r \<and> searchScore r \<le> 100"
    using basicResults_bounds by (simp add: basicCandidates_def Let_def)
  show ?thesis
  proof (cases c)
    case None
    with basic show ?thesis by (simp add: scoredCandidates_def)
  next
    case (Some index)
    show ?thesis
    proof (cases "indexedResults q index")
      case (Inl e)
      with Some basic show ?thesis by (simp add: scoredCandidates_def)
    next
      case (Inr rs)
      with Some indexedResults_bounds [OF Inr] show ?thesis
        by (simp add: scoredCandidates_def)
    qed
  qed
qed

lemma searchDocuments_bounds:
  "\<forall>r \<in> set (searchDocuments q docs m c). 0 \<le> searchScore r \<and> searchScore r \<le> 100"
  using scoredCandidates_bounds [of q docs c] set_topResults [of m "scoredCandidates q docs c"]
  by (auto simp add: searchDocuments_top)

lemma searchDocuments_sorted:
  "sorted_wrt (\<lambda>a b. searchScore b \<le> searchScore a) (searchDocuments q docs m c)"
  by (simp add: searchDocuments_top sorted_topResults)

lemma searchScore_trimContent [simp]: "searchScore (trimContent r) = searchScore r"
  by (simp add: trimContent_def)

lemma results_POST_cases:
  "results (fst (POST now dir c r)) = []
   \<or> (\<exists>q docs m c'. results (fst (POST now dir c r)) = map trimContent (searchDocuments q docs m c'))"
  by (auto simp add: POST_def Let_def errorResponse_def split: prod.split)

text \<open>
  C3. Every score in the list that a search returns, and in the results of a response,
  is an integer from 0 to 100, and the list is in non-increasing order of score.
\<close>

theorem scores_bounded_and_sorted:
  "(\<forall>r \<in> set (searchDocuments q docs m c). 0 \<le> searchScore r \<and> searchScore r \<le> 100)
   \<and> sorted_wrt (\<lambda>a b. searchScore b \<le> searchScore a) (searchDocuments q docs m c)
   \<and> (\<forall>r \<in> set (results (fst (POST now dir c' req))). 0 \<le> searchScore r \<and> searchScore r \<le> 100)
   \<and> sorted_wrt (\<lambda>a b. searchScore b \<le> searchScore a) (results (fst (POST now dir c' req)))"
proof (intro conjI)
  show "\<forall>r \<in> set (searchDocuments q docs m c). 0 \<le> searchScore r \<and> searchScore r \<le> 100"
    by (rule searchDocuments_bounds)
  show "sorted_wrt (\<lambda>a b. searchScore b \<le> searchScore a) (searchDocuments q docs m c)"
    by (rule searchDocuments_sorted)
  show "\<forall>r \<in> set (results (fst (POST now dir c' req))). 0 \<le> searchScore r \<and> searchScore r \<le> 100"
    using results_POST_cases [of now dir c' req] searchDocuments_bounds by fastforce
  show "sorted_wrt (\<lambda>a b. searchScore b \<le> searchScore a) (results (fst (POST now dir c' req)))"
    using results_POST_cases [of now dir c' req] searchDocuments_sorted
    by (fastforce simp add: sorted_wrt_map)
qed

lemma ranking_search:
  "searchDocuments ''cloud'' [backupDoc, securityDoc, pricingDoc] 5 rankingCache
     = [\<lparr>scored = backupDoc, searchScore = 21\<rparr>, \<lparr>scored = securityDoc, searchScore = 21\<rparr>,
        \<lparr>scored = pricingDoc, searchScore = 9\<rparr>]"
  by (simp add: searchDocuments_top ranking_candidates topResults_def slice0_def)

theorem scores_bounded_and_sorted_witness:
  "searchDocuments ''cloud'' [backupDoc, securityDoc, pricingDoc] 5 rankingCache
     = [\<lparr>scored = backupDoc, searchScore = 21\<rparr>, \<lparr>scored = securityDoc, searchScore = 21\<rparr>,
        \<lparr>scored = pricingDoc, searchScore = 9\<rparr>]
   \<and> list_all (\<lambda>r. 0 \<le> searchScore r \<and> searchScore r \<le> 100)
        (searchDocuments ''cloud'' [backupDoc, securityDoc, pricingDoc] 5 rankingCache)
   \<and> sorted_wrt (\<lambda>a b. searchScore b \<le> searchScore a)
        (searchDocuments ''cloud'' [backupDoc, securityDoc, pricingDoc] 5 rankingCache)"
  using scores_bounded_and_sorted
    [of "''cloud''" "[backupDoc, securityDoc, pricingDoc]" 5 rankingCache 0 rankingDir None
        "\<lparr>query = ''cloud'', maxResults = NaN\<rparr>"]
    ranking_search
  unfolding list_all_iff by blast





section \<open>Queries without searchable terms\<close>

lemma POST_no_results:
  assumes "2 \<le> length (trim (query r))" and "length (trim (query r)) \<le> 500"
    and "fst (loadKnowledgeBaseDocuments now dir c) \<noteq> []"
    and "results (fst (POST now dir c r)) = []"
  shows "fst (POST now dir c r) =
           \<lparr>status = 200, results = [],
            total_documents = length (fst (loadKnowledgeBaseDocuments now dir c)),
            success = True, error_message = None\<rparr>"
proof -
  obtain docs cache where l: "loadKnowledgeBaseDocuments now dir c = (docs, cache)"
    by (cases "loadKnowledgeBaseDocuments now dir c")
  with assms(3) have d: "docs \<noteq> []" by simp
  from assms(4) l d have "map trimContent (searchDocuments (trim (query r)) docs
                             (effectiveMaxResults (maxResults r)) cache) = []"
    by (simp add: POST_valid [OF assms(1,2)])
  with l d show ?thesis by (simp add: POST_valid [OF assms(1,2)])
qed

text \<open>
  C9, as amended. A valid query that has no token after the stop words are removed
  is answered, when documents are loaded, with status 200, \<open>success\<close>, no results and
  the number of documents; nothing is raised. Any other valid query that finds
  nothing gets the same response, so the response does not tell the caller that the
  query had no searchable term.
\<close>

theorem no_searchable_terms:
  "2 \<le> length (trim (query r)) \<and> length (trim (query r)) \<le> 500
     \<and> tokenizeAndNormalize (trim (query r)) = []
     \<and> fst (loadKnowledgeBaseDocuments now dir c) \<noteq> [] \<longrightarrow>
     fst (POST now dir c r) =
       \<lparr>status = 200, results = [],
        total_documents = length (fst (loadKnowledgeBaseDocuments now dir c)),
        success = True, error_message = None\<rparr>
     \<and> (2 \<le> length (trim (query r')) \<and> length (trim (query r')) \<le> 500
          \<and> results (fst (POST now dir c r')) = [] \<longrightarrow>
          fst (POST now dir c r') = fst (POST now dir c r))"
proof (intro impI conjI)
  assume a: "2 \<le> length (trim (query r)) \<and> length (trim (query r)) \<le> 500
     \<and> tokenizeAndNormalize (trim (query r)) = []
     \<and> fst (loadKnowledgeBaseDocuments now dir c) \<noteq> []"
  then show p: "fst (POST now dir c r) =
       \<lparr>status = 200, results = [],
        total_documents = length (fst (loadKnowledgeBaseDocuments now dir c)),
        success = True, error_message = None\<rparr>"
    by (simp add: POST_no_tokens)
  assume "2 \<le> length (trim (query r')) \<and> length (trim (query r')) \<le> 500
          \<and> results (fst (POST now dir c r')) = []"
  with a have "fst (POST now dir c r') =
       \<lparr>status = 200, results = [],
        total_documents = length (fst (loadKnowledgeBaseDocuments now dir c)),
        success = True, error_message = None\<rparr>"
    by (simp add: POST_no_results)
  with p show "fst (POST now dir c r') = fst (POST now dir c r)" by simp
qed

lemma ranking_build:
  "\<exists>index. buildKnowledgeBaseIndex [backupDoc, securityDoc, pricingDoc] 0 = Inr index"
  by (simp only: build_Inr_iff)
     (simp add: text_evals objectPrototypeNames_def backupDoc_def securityDoc_def pricingDoc_def)

lemma ranking_quantum:
  "searchDocuments ''quantum'' [backupDoc, securityDoc, pricingDoc] 5 rankingCache = []"
proof -
  from ranking_build obtain index where
    b: "buildKnowledgeBaseIndex [backupDoc, securityDoc, pricingDoc] 0 = Inr index" ..
  then have c: "rankingCache = Some index"
    by (simp add: rankingCache_def loadKnowledgeBaseDocuments_def rebuildIndex_def rankingDir_def
        parsedDocuments_def)
  have "''quantum'' \<notin> fst ` set (invertedIndex index)"
    unfolding builtIndex_keys [OF build_Inr(1) [OF b]]
    by (simp add: text_evals backupDoc_def securityDoc_def pricingDoc_def)
  then have "map_of (invertedIndex index) ''quantum'' = None"
    by (simp add: map_of_eq_None_iff)
  then have "indexedResults ''quantum'' index = Inr []"
    by (simp add: indexedResults_def expandQueryForSmallKb_def synonymMap_def newSet_def
        setAdd_def candidateDocIds_def getProperty_def objectPrototypeNames_def text_evals)
  then show ?thesis
    by (simp add: c searchDocuments_top scoredCandidates_def text_evals)
qed

theorem no_searchable_terms_witness:
  "tokenizeAndNormalize ''the is a'' = []
   \<and> fst (POST 0 rankingDir None \<lparr>query = ''the is a'', maxResults = NaN\<rparr>) =
       \<lparr>status = 200, results = [], total_documents = 3, success = True, error_message = None\<rparr>
   \<and> fst (POST 0 rankingDir None \<lparr>query = ''quantum'', maxResults = Num 3\<rparr>)
       = fst (POST 0 rankingDir None \<lparr>query = ''the is a'', maxResults = NaN\<rparr>)"
proof -
  have t: "trim ''the is a'' = ''the is a''" "trim ''quantum'' = ''quantum''"
    by (simp_all add: trim_def isSpace_def)
  have h: "2 \<le> length (trim (query \<lparr>query = ''the is a'', maxResults = NaN\<rparr>))
         \<and> length (trim (query \<lparr>query = ''the is a'', maxResults = NaN\<rparr>)) \<le> 500
         \<and> tokenizeAndNormalize (trim (query \<lparr>query = ''the is a'', maxResults = NaN\<rparr>)) = []
         \<and> fst (loadKnowledgeBaseDocuments 0 rankingDir None) \<noteq> []"
    by (simp add: t ranking_load) (simp add: text_evals)
  have q: "searchDocuments ''quantum'' [backupDoc, securityDoc, pricingDoc] 3 rankingCache = []"
    using ranking_quantum by (simp add: searchDocuments_top topResults_def slice0_def)
  have h': "2 \<le> length (trim (query \<lparr>query = ''quantum'', maxResults = Num 3\<rparr>))
         \<and> length (trim (query \<lparr>query = ''quantum'', maxResults = Num 3\<rparr>)) \<le> 500
         \<and> results (fst (POST 0 rankingDir None \<lparr>query = ''quantum'', maxResults = Num 3\<rparr>)) = []"
    by (subst ranking_POST) (simp_all add: t effectiveMaxResults_def q)
  from no_searchable_terms
    [of "\<lparr>query = ''the is a'', maxResults = NaN\<rparr>" 0 rankingDir None
        "\<lparr>query = ''quantum'', maxResults = Num 3\<rparr>"] h h'
  have "fst (POST 0 rankingDir None \<lparr>query = ''the is a'', maxResults = NaN\<rparr>) =
       \<lparr>status = 200, results = [],
        total_documents = length (fst (loadKnowledgeBaseDocuments 0 rankingDir None)),
        success = True, error_message = None\<rparr>
    \<and> fst (POST 0 rankingDir None \<lparr>query = ''quantum'', maxResults = Num 3\<rparr>)
       = fst (POST 0 rankingDir None \<lparr>query = ''the is a'', maxResults = NaN\<rparr>)"
    by blast
  moreover have "tokenizeAndNormalize ''the is a'' = []" by (simp add: text_evals)
  ultimately show ?thesis by (simp add: ranking_load)
qed

text \<open>
  The claim as stated fails: the query \<open>the is a\<close> has no searchable term, the query
  \<open>quantum\<close> has one that no document contains, and the two get the same response.
\<close>

theorem no_searchable_terms_counterexample:
  "tokenizeAndNormalize ''the is a'' = []
   \<and> tokenizeAndNormalize ''quantum'' = [''quantum'']
   \<and> fst (POST 0 rankingDir None \<lparr>query = ''the is a'', maxResults = NaN\<rparr>)
       = fst (POST 0 rankingDir None \<lparr>query = ''quantum'', maxResults = NaN\<rparr>)"
proof -
  have t: "trim ''the is a'' = ''the is a''" "trim ''quantum'' = ''quantum''"
    by (simp_all add: trim_def isSpace_def)
  have 1: "tokenizeAndNormalize ''the is a'' = []" by (simp add: text_evals)
  have 2: "tokenizeAndNormalize ''quantum'' = [''quantum'']" by (simp add: text_evals)
  have m: "effectiveMaxResults NaN = 5" by (simp add: effectiveMaxResults_def MAX_RESULTS_def)
  have "fst (POST 0 rankingDir None \<lparr>query = ''the is a'', maxResults = NaN\<rparr>) =
       \<lparr>status = 200, results = [], total_documents = 3, success = True, error_message = None\<rparr>"
  proof -
    from snd_load [of 0 rankingDir None] obtain index where c: "rankingCache = Some index"
      by (auto simp add: rankingCache_def)
    have "searchDocuments ''the is a'' [backupDoc, securityDoc, pricingDoc] 5 rankingCache = []"
      unfolding c by (rule searchDocuments_no_tokens [OF 1])
    then show ?thesis by (subst ranking_POST) (simp_all add: t m)
  qed
  moreover have "fst (POST 0 rankingDir None \<lparr>query = ''quantum'', maxResults = NaN\<rparr>) =
       \<lparr>status = 200, results = [], total_documents = 3, success = True, error_message = None\<rparr>"
    by (subst ranking_POST) (simp_all add: t m ranking_quantum)
  ultimately show ?thesis using 1 2 by simp
qed

section \<open>Documents without a query term\<close>

text \<open>
  C5. The code diverges from the claim when a token of the query is \<open>constructor\<close> (or
  \<open>__proto__\<close>), a name that every object literal inherits. The query
  \<open>what does this constructor do\<close> has the one token \<open>constructor\<close>;
  \<open>synonymMap['constructor']\<close> is a function, \<open>synonyms.forEach\<close> raises, and the
  \<open>catch\<close> falls back to the basic search, which keeps the word \<open>this\<close> and matches
  substrings. The response lists \<open>guideDoc\<close>, which has neither the token
  \<open>constructor\<close> nor any other term of the query.
\<close>

theorem fallback_returns_unrelated_document:
  "tokenizeAndNormalize ''what does this constructor do'' = [''constructor'']
   \<and> expandQueryForSmallKb [''constructor''] index = Inl TypeError
   \<and> ''constructor'' \<notin> set (documentTokens guideDoc)
   \<and> results (fst (POST 0 fallbackDir None
                 \<lparr>query = ''what does this constructor do'', maxResults = NaN\<rparr>))
       = [\<lparr>scored = guideDoc, searchScore = 10\<rparr>]"
proof -
  have 1: "tokenizeAndNormalize ''what does this constructor do'' = [''constructor'']"
    by (simp add: text_evals)
  have 2: "expandQueryForSmallKb [''constructor''] index = Inl TypeError"
    by (simp add: expandQueryForSmallKb_def synonymMap_def getProperty_def objectPrototypeNames_def)
  have 3: "''constructor'' \<notin> set (documentTokens guideDoc)"
    by (simp add: text_evals guideDoc_def)
  have 4: "results (fst (POST 0 fallbackDir None
                 \<lparr>query = ''what does this constructor do'', maxResults = NaN\<rparr>))
       = [\<lparr>scored = guideDoc, searchScore = 10\<rparr>]"
    by (simp add: POST_def trim_def loadKnowledgeBaseDocuments_def rebuildIndex_def
        fallbackDir_def parsedDocuments_def effectiveMaxResults_def MAX_RESULTS_def
        searchDocuments_def indexedResults_def expandQueryForSmallKb_def synonymMap_def
        newSet_def searchDocumentsBasic_def basicStopWords_def basicResults_def basicScore_def
        topResults_def slice0_def trimContent_def MAX_CONTENT_LENGTH_def mathRound_def
        text_evals build_evals guideDoc_def cloudDoc_def)
  from 1 2 3 4 show ?thesis by simp
qed

text \<open>
  A second input: the two files of \<open>sameIdDocs\<close> share the id \<open>a_b\<close>. The term
  \<open>delta\<close> occurs in the first only; the inverted index lists the id for it, the
  document index holds the second file under that id, and the search for \<open>delta\<close>
  returns the second file.
\<close>

lemma colliding_ids_return_other_document:
  "''delta'' \<notin> set (documentTokens (sameIdDocs ! 1))
   \<and> results (fst (POST 0 (MdFiles (map Some sameIdDocs)) None
                 \<lparr>query = ''delta'', maxResults = NaN\<rparr>))
       = [\<lparr>scored = sameIdDocs ! 1, searchScore = 1\<rparr>]"
proof -
  have 1: "''delta'' \<notin> set (documentTokens (sameIdDocs ! 1))"
    by (simp add: text_evals sameIdDocs_def)
  have 2: "results (fst (POST 0 (MdFiles (map Some sameIdDocs)) None
                 \<lparr>query = ''delta'', maxResults = NaN\<rparr>))
       = [\<lparr>scored = sameIdDocs ! 1, searchScore = 1\<rparr>]"
    by (simp add: POST_def trim_def loadKnowledgeBaseDocuments_def rebuildIndex_def
        parsedDocuments_def effectiveMaxResults_def MAX_RESULTS_def
        searchDocuments_def topResults_def slice0_def trimContent_def MAX_CONTENT_LENGTH_def
        text_evals build_evals search_evals sameIdDocs_def)
  from 1 2 show ?thesis by simp
qed

end
